theory Spec2Isabelle
  imports Main "HOL-Library.Word" "HOL-Library.Sublist"
begin

section \<open>Outcomes of a call\<close>

text \<open>
  A Go call either returns or ends the program. \<open>Panic\<close> is a \<^verbatim>\<open>panic(v)\<close> with the text
  of its value; \<open>StackOverflow\<close> is the runtime's fatal error when the goroutine stack is
  exhausted (it cannot be recovered); \<open>NilDereference\<close> is the run-time panic of a method
  call through a nil pointer. \<open>Unsupported\<close> is not a behaviour of the program: it marks a
  format directive of package \<^verbatim>\<open>fmt\<close> that lies outside the part of \<^verbatim>\<open>fmt\<close> modelled here.
\<close>

datatype failure = Panic string | StackOverflow | NilDereference | Unsupported

definition bindF :: "failure + 'a \<Rightarrow> ('a \<Rightarrow> failure + 'b) \<Rightarrow> failure + 'b" where
  "bindF m f = (case m of Inl e \<Rightarrow> Inl e | Inr x \<Rightarrow> f x)"

section \<open>Severities\<close>

text \<open>
  \<^verbatim>\<open>type LogLevel uint8\<close> with the constants \<^verbatim>\<open>All = iota, Trace, Debug, Info, Warning,
  Error, None\<close>. The names carry a suffix because \<open>All\<close> and \<open>None\<close> are constants of HOL.
\<close>

type_synonym LogLevel = "8 word"

definition All_level :: LogLevel where "All_level = 0"
definition Trace_level :: LogLevel where "Trace_level = 1"
definition Debug_level :: LogLevel where "Debug_level = 2"
definition Info_level :: LogLevel where "Info_level = 3"
definition Warning_level :: LogLevel where "Warning_level = 4"
definition Error_level :: LogLevel where "Error_level = 5"
definition None_level :: LogLevel where "None_level = 6"

section \<open>The part of the Go library the program calls\<close>

subsection \<open>Values behind \<^verbatim>\<open>interface{}\<close>\<close>

text \<open>
  \<^verbatim>\<open>Subject\<close> and \<^verbatim>\<open>Elements\<close> hold values of any type. The model covers nil, strings,
  ints, bools and values of the program's own type \<^verbatim>\<open>LogLevel\<close> (the one type of the
  program with a \<^verbatim>\<open>String\<close> method).
\<close>

datatype gvalue = VNil | VString string | VInt int | VBool bool | VLevel LogLevel

subsection \<open>\<^verbatim>\<open>strconv.Itoa\<close>\<close>

definition digit :: "nat \<Rightarrow> char" where
  "digit d = ''0123456789'' ! d"

fun uitoa :: "nat \<Rightarrow> string" where
  "uitoa n = (if n < 10 then [digit n] else uitoa (n div 10) @ [digit (n mod 10)])"

declare uitoa.simps [simp del]

definition Itoa :: "int \<Rightarrow> string" where
  "Itoa i = (if i < 0 then CHR ''-'' # uitoa (nat (- i)) else uitoa (nat i))"

subsection \<open>\<^verbatim>\<open>fmt.Sprintf\<close>\<close>

text \<open>
  The directives modelled are \<^verbatim>\<open>%v\<close>, \<^verbatim>\<open>%s\<close>, \<^verbatim>\<open>%d\<close> and \<^verbatim>\<open>%%\<close>, without flags, width,
  precision or argument index, together with the error texts \<^verbatim>\<open>fmt\<close> writes in place of
  a failure: \<^verbatim>\<open>%!v(MISSING)\<close> for a directive without operand, \<^verbatim>\<open>%!(NOVERB)\<close> for a
  \<^verbatim>\<open>%\<close> that ends the format, \<^verbatim>\<open>%!d(string=x)\<close> for a verb that does not fit its operand
  and \<^verbatim>\<open>%!(EXTRA type=value, ...)\<close> for operands left over. Any other character after
  \<^verbatim>\<open>%\<close> gives \<open>Unsupported\<close>.

  A \<^verbatim>\<open>LogLevel\<close> operand under \<^verbatim>\<open>%v\<close> or \<^verbatim>\<open>%s\<close> is printed by calling its \<^verbatim>\<open>String\<close>
  method; \<^verbatim>\<open>fmt\<close> recovers a panic of that call and prints it (\<^verbatim>\<open>catchPanic\<close>). The
  method is a parameter here, because \<^verbatim>\<open>String\<close> itself calls \<^verbatim>\<open>Sprintf\<close>.
\<close>

type_synonym stringer = "LogLevel \<Rightarrow> failure + string"

definition typeString :: "gvalue \<Rightarrow> string" where
  "typeString a = (case a of
       VNil \<Rightarrow> ''<nil>''
     | VString s \<Rightarrow> ''string''
     | VInt i \<Rightarrow> ''int''
     | VBool b \<Rightarrow> ''bool''
     | VLevel l \<Rightarrow> ''golog.LogLevel'')"

definition fmtBool :: "bool \<Rightarrow> string" where
  "fmtBool b = (if b then ''true'' else ''false'')"

definition handleMethods :: "stringer \<Rightarrow> char \<Rightarrow> LogLevel \<Rightarrow> failure + string" where
  "handleMethods str verb l = (case str l of
       Inr s \<Rightarrow> Inr s
     | Inl (Panic p) \<Rightarrow> Inr (''%!'' @ [verb] @ ''(PANIC=String method: '' @ p @ '')'')
     | Inl e \<Rightarrow> Inl e)"

definition badVerb :: "char \<Rightarrow> gvalue \<Rightarrow> string" where
  "badVerb verb a = ''%!'' @ [verb] @ ''('' @ (case a of
       VNil \<Rightarrow> ''<nil>''
     | VString s \<Rightarrow> typeString a @ ''='' @ s
     | VInt i \<Rightarrow> typeString a @ ''='' @ Itoa i
     | VBool b \<Rightarrow> typeString a @ ''='' @ fmtBool b
     | VLevel l \<Rightarrow> typeString a @ ''='' @ uitoa (unat l)) @ '')''"

definition printArg :: "stringer \<Rightarrow> gvalue \<Rightarrow> char \<Rightarrow> failure + string" where
  "printArg str a verb =
     (if verb = CHR ''v'' then
        (case a of
           VNil \<Rightarrow> Inr ''<nil>''
         | VString s \<Rightarrow> Inr s
         | VInt i \<Rightarrow> Inr (Itoa i)
         | VBool b \<Rightarrow> Inr (fmtBool b)
         | VLevel l \<Rightarrow> handleMethods str verb l)
      else if verb = CHR ''s'' then
        (case a of
           VString s \<Rightarrow> Inr s
         | VLevel l \<Rightarrow> handleMethods str verb l
         | _ \<Rightarrow> Inr (badVerb verb a))
      else if verb = CHR ''d'' then
        (case a of
           VInt i \<Rightarrow> Inr (Itoa i)
         | VLevel l \<Rightarrow> Inr (uitoa (unat l))
         | _ \<Rightarrow> Inr (badVerb verb a))
      else Inl Unsupported)"

fun extraArgs :: "stringer \<Rightarrow> gvalue list \<Rightarrow> failure + string" where
  "extraArgs str [] = Inr []"
| "extraArgs str (a # as) =
     bindF (if a = VNil then Inr ''<nil>''
            else bindF (printArg str a (CHR ''v'')) (\<lambda>s. Inr (typeString a @ ''='' @ s)))
       (\<lambda>s. if as = [] then Inr s
             else bindF (extraArgs str as) (\<lambda>r. Inr (s @ '', '' @ r)))"

definition extra :: "stringer \<Rightarrow> gvalue list \<Rightarrow> failure + string" where
  "extra str args =
     (if args = [] then Inr []
      else bindF (extraArgs str args) (\<lambda>s. Inr (''%!(EXTRA '' @ s @ '')'')))"

fun doPrintf :: "stringer \<Rightarrow> string \<Rightarrow> gvalue list \<Rightarrow> failure + string" where
  "doPrintf str [] args = extra str args"
| "doPrintf str (c # cs) args =
     (if c \<noteq> CHR ''%'' then bindF (doPrintf str cs args) (\<lambda>r. Inr (c # r))
      else (case cs of
          [] \<Rightarrow> bindF (extra str args) (\<lambda>r. Inr (''%!(NOVERB)'' @ r))
        | verb # rest \<Rightarrow>
            if verb = CHR ''%'' then bindF (doPrintf str rest args) (\<lambda>r. Inr (CHR ''%'' # r))
            else if verb \<noteq> CHR ''v'' \<and> verb \<noteq> CHR ''s'' \<and> verb \<noteq> CHR ''d'' then Inl Unsupported
            else (case args of
                [] \<Rightarrow> bindF (doPrintf str rest [])
                        (\<lambda>r. Inr (''%!'' @ [verb] @ ''(MISSING)'' @ r))
              | a # as \<Rightarrow> bindF (printArg str a verb)
                        (\<lambda>s. bindF (doPrintf str rest as) (\<lambda>r. Inr (s @ r))))))"

definition Sprintf :: "stringer \<Rightarrow> string \<Rightarrow> gvalue list \<Rightarrow> failure + string" where
  "Sprintf str format a = doPrintf str format a"



subsection \<open>\<^verbatim>\<open>strings.Contains\<close> and \<^verbatim>\<open>strings.Replace\<close>\<close>

fun Contains :: "string \<Rightarrow> string \<Rightarrow> bool" where
  "Contains [] substr = (substr = [])"
| "Contains (c # cs) substr = (prefix substr (c # cs) \<or> Contains cs substr)"

text \<open>
  \<^verbatim>\<open>strings.Replace(s, old, new, -1)\<close>, the only way the program calls it: every
  occurrence of \<open>old\<close> is replaced, found from the left, the search going on behind the
  occurrence just replaced. An empty \<open>old\<close> matches before every character and at the end
  (the library counts UTF-8 sequences there; the model counts bytes, which is the same on
  ASCII text).
\<close>

fun replaceFrom :: "string \<Rightarrow> string \<Rightarrow> string \<Rightarrow> string" where
  "replaceFrom old new [] = []"
| "replaceFrom old new (c # cs) =
     (if old \<noteq> [] \<and> prefix old (c # cs)
      then new @ replaceFrom old new (drop (length old) (c # cs))
      else c # replaceFrom old new cs)"

fun insertAll :: "string \<Rightarrow> string \<Rightarrow> string" where
  "insertAll new [] = new"
| "insertAll new (c # cs) = new @ c # insertAll new cs"

definition Replace_all :: "string \<Rightarrow> string \<Rightarrow> string \<Rightarrow> string" where
  "Replace_all s old new =
     (if old = new then s
      else if old = [] then insertAll new s
      else replaceFrom old new s)"

subsection \<open>Package \<^verbatim>\<open>log\<close>\<close>

text \<open>
  An \<^verbatim>\<open>io.Writer\<close> is known by its identity only: standard output, or a handle the caller
  supplied. What the program writes is recorded as a list of writes, each the writer and
  the bytes of one \<^verbatim>\<open>Write\<close> call; the result of \<^verbatim>\<open>Write\<close> is ignored by
  \<^verbatim>\<open>Logger.Printf\<close>, as in the library.
\<close>

datatype writer = Stdout | Handle nat

type_synonym written = "(writer \<times> string) list"

record Logger =
  out :: writer
  lprefix :: string
  flag :: nat

definition LstdFlags :: nat where
  "LstdFlags = 3"

definition log_New :: "writer \<Rightarrow> string \<Rightarrow> nat \<Rightarrow> Logger" where
  "log_New w p f = \<lparr>out = w, lprefix = p, flag = f\<rparr>"

definition newline :: char where
  "newline = CHR 0x0A"

text \<open>
  \<^verbatim>\<open>formatHeader\<close> for the flags the program sets: bit 0 (\<^verbatim>\<open>Ldate\<close>) and bit 1
  (\<^verbatim>\<open>Ltime\<close>); \<^verbatim>\<open>LstdFlags\<close> is both. The second argument is the reading of the clock
  at the call, as the texts \<^verbatim>\<open>2006/01/02\<close> and \<^verbatim>\<open>15:04:05\<close>.
\<close>

definition formatHeader :: "Logger \<Rightarrow> string \<times> string \<Rightarrow> string" where
  "formatHeader l now =
     lprefix l
     @ (if odd (flag l) then fst now @ '' '' else [])
     @ (if odd (flag l div 2) then snd now @ '' '' else [])"

definition Logger_Output :: "Logger \<Rightarrow> string \<times> string \<Rightarrow> string \<Rightarrow> writer \<times> string" where
  "Logger_Output l now s =
     (out l, formatHeader l now @ s @ (if s = [] \<or> last s \<noteq> newline then [newline] else []))"

definition Logger_Printf ::
  "stringer \<Rightarrow> Logger option \<Rightarrow> string \<times> string \<Rightarrow> string \<Rightarrow> gvalue list
     \<Rightarrow> failure + writer \<times> string" where
  "Logger_Printf str lg now format v =
     bindF (Sprintf str format v)
       (\<lambda>s. case lg of None \<Rightarrow> Inl NilDereference | Some l \<Rightarrow> Inr (Logger_Output l now s))"

section \<open>\<^verbatim>\<open>LogLevel.String\<close>\<close>

text \<open>
  The switch of \<^verbatim>\<open>String\<close>, in the order of the source. Its default branch is
  \<^verbatim>\<open>panic(fmt.Sprintf("No such log level, %v", ll))\<close>: the operand \<^verbatim>\<open>ll\<close> is a
  \<^verbatim>\<open>LogLevel\<close>, so \<^verbatim>\<open>%v\<close> calls \<^verbatim>\<open>ll.String()\<close> again, one stack frame deeper. The first
  argument is the number of further nested calls the goroutine stack has room for.
\<close>

fun LogLevel_String :: "nat \<Rightarrow> LogLevel \<Rightarrow> failure + string" where
  "LogLevel_String stack ll =
     (if ll = None_level then Inr ''NONE''
      else if ll = Error_level then Inr ''ERR ''
      else if ll = Warning_level then Inr ''WARN''
      else if ll = Info_level then Inr ''INFO''
      else if ll = Debug_level then Inr ''DBG ''
      else if ll = Trace_level then Inr ''TRC ''
      else if ll = All_level then Inr ''ALL ''
      else (case stack of
          0 \<Rightarrow> Inl StackOverflow
        | Suc deeper \<Rightarrow>
            bindF (Sprintf (LogLevel_String deeper) ''No such log level, %v'' [VLevel ll])
              (\<lambda>s. Inl (Panic s))))"

declare LogLevel_String.simps [simp del]

section \<open>Sinks and messages\<close>

text \<open>
  The repository holds two variants of the same file. \<^verbatim>\<open>log.go\<close> prints a fixed layout;
  the other file (here: the template variant) expands a per-sink template. The second
  \<^verbatim>\<open>Instance\<close> and \<^verbatim>\<open>Message\<close> structs are the first ones with fields added, so they are
  record extensions, and the code that both files share word for word is modelled once,
  for both. \<^verbatim>\<open>Instance.Format\<close> is named \<open>Format_sink\<close>, apart from \<^verbatim>\<open>Message.Format\<close>;
  the fields \<^verbatim>\<open>UpdateOutput\<close> and \<^verbatim>\<open>UpdateOutputTrigger\<close> are never read or written and
  are left out. \<^verbatim>\<open>log\<close> is a pointer that is nil until \<^verbatim>\<open>initialize\<close> runs; \<^verbatim>\<open>values\<close> is
  a map that is nil unless \<^verbatim>\<open>Log\<close> built the message.
\<close>

record Instance =
  Name :: string
  "output" :: writer
  tags :: "string list"
  log :: "Logger option"

record TplInstance = Instance +
  Format_sink :: string
  needsRuntime :: bool

record Message =
  Level :: LogLevel
  Subject :: gvalue
  Tags :: "string list"
  Format :: string
  Elements :: "gvalue list"

record TplMessage = Message +
  "values" :: "(string \<rightharpoonup> string) option"

definition ExpandFunctionName :: string where "ExpandFunctionName = ''FUNCTION''"
definition ExpandLineNumber :: string where "ExpandLineNumber = ''LINE''"
definition ExpandTime :: string where "ExpandTime = ''TIME''"
definition ExpandDuration :: string where "ExpandDuration = ''DURATION''"
definition ExpandSubject :: string where "ExpandSubject = ''SUBJECT''"
definition ExpandMessageLevel :: string where "ExpandMessageLevel = ''LEVEL''"
definition ExpandMessage :: string where "ExpandMessage = ''MESSAGE''"

subsection \<open>Constructing sinks\<close>

definition newInstance :: "string \<Rightarrow> writer \<Rightarrow> string list \<Rightarrow> Instance" where
  "newInstance name outp tgs = \<lparr>Name = name, output = outp, tags = tgs, log = None\<rparr>"

text \<open>\<^verbatim>\<open>log.go\<close> builds the logger on \<^verbatim>\<open>os.Stdout\<close>, whatever \<^verbatim>\<open>i.output\<close> is.\<close>

definition initialize :: "Instance \<Rightarrow> Instance" where
  "initialize i = i\<lparr>log := Some (log_New Stdout [] LstdFlags)\<rparr>"

definition checkForRuntime :: "TplInstance \<Rightarrow> TplInstance" where
  "checkForRuntime i =
     (if Contains (Format_sink i) ExpandFunctionName \<or> Contains (Format_sink i) ExpandLineNumber
      then i\<lparr>needsRuntime := True\<rparr> else i)"

definition newInstance_tpl :: "string \<Rightarrow> string \<Rightarrow> writer \<Rightarrow> string list \<Rightarrow> TplInstance" where
  "newInstance_tpl name format outp tgs =
     checkForRuntime
       \<lparr>Name = name, output = outp, tags = tgs, log = None,
        Format_sink = format, needsRuntime = False\<rparr>"

definition initialize_tpl :: "TplInstance \<Rightarrow> TplInstance" where
  "initialize_tpl i = i\<lparr>log := Some (log_New (output i) [] 0)\<rparr>"

section \<open>The dispatcher\<close>

subsection \<open>Code shared by the two files\<close>

text \<open>\<^verbatim>\<open>matchTags\<close>: a loop inside a loop, returning at the first equal pair.\<close>

fun matchTag :: "string \<Rightarrow> string list \<Rightarrow> bool" where
  "matchTag t [] = False"
| "matchTag t (tt # logTags) = (if t = tt then True else matchTag t logTags)"

fun matchTags :: "string list \<Rightarrow> string list \<Rightarrow> bool" where
  "matchTags [] logTags = False"
| "matchTags (t # msgTags) logTags =
     (if matchTag t logTags then True else matchTags msgTags logTags)"

text \<open>
  The loop that collects the sinks of a message into \<^verbatim>\<open>loggers\<close> (which starts nil):
  \<^verbatim>\<open>continue\<close> when the sink has tags and none matches, \<^verbatim>\<open>append\<close> otherwise.
\<close>

fun selectLoggers ::
  "'m Message_scheme \<Rightarrow> 'i Instance_scheme list \<Rightarrow> 'i Instance_scheme list
     \<Rightarrow> 'i Instance_scheme list" where
  "selectLoggers msg [] loggers = loggers"
| "selectLoggers msg (l # ls) loggers =
     (if length (tags l) > 0 \<and> \<not> matchTags (Tags msg) (tags l)
      then selectLoggers msg ls loggers
      else selectLoggers msg ls (loggers @ [l]))"

text \<open>
  The \<^verbatim>\<open>DeRegisterLogger\<close> case compacts \<^verbatim>\<open>gologgers\<close> in place: the \<^verbatim>\<open>range\<close> loop reads
  element \<open>j\<close> of the array it is writing to, keeps it at index \<open>i\<close> unless its name is
  the one to remove, and the slice is cut to \<^verbatim>\<open>gologgers[:i]\<close> at the end.
\<close>

definition deregisterStep ::
  "string \<Rightarrow> nat \<Rightarrow> 'i Instance_scheme list \<times> nat \<Rightarrow> 'i Instance_scheme list \<times> nat" where
  "deregisterStep name j s =
     (case s of (arr, i) \<Rightarrow>
        let l = arr ! j in
        if Name l = name then (arr, i) else (arr[i := l], Suc i))"

definition deregister :: "string \<Rightarrow> 'i Instance_scheme list \<Rightarrow> 'i Instance_scheme list" where
  "deregister name gologgers0 =
     (case fold (deregisterStep name) [0..<length gologgers0] (gologgers0, 0) of
        (arr, i) \<Rightarrow> take i arr)"

text \<open>
  \<^verbatim>\<open>for _, l := range loggers { l.log.Printf(...) }\<close>: the body yields the write of the
  \<open>n\<close>-th sink or ends the program; the writes are appended in order.
\<close>

fun forEachLogger ::
  "(nat \<Rightarrow> 'i \<Rightarrow> failure + writer \<times> string) \<Rightarrow> nat \<Rightarrow> 'i list \<Rightarrow> written
     \<Rightarrow> failure + written" where
  "forEachLogger body n [] w = Inr w"
| "forEachLogger body n (l # ls) w =
     bindF (body n l) (\<lambda>line. forEachLogger body (Suc n) ls (w @ [line]))"

text \<open>
  The state the dispatcher goroutine owns: the package variables \<^verbatim>\<open>level\<close> and
  \<^verbatim>\<open>gologgers\<close> (and \<^verbatim>\<open>prefix\<close> in \<^verbatim>\<open>log.go\<close>, here \<open>prefix_str\<close>), and the writes made so far.
\<close>

record 'i Globals =
  level :: LogLevel
  gologgers :: "'i list"
  written :: written

record FixedGlobals = "Instance Globals" +
  prefix_str :: string

subsection \<open>\<^verbatim>\<open>log.go\<close>\<close>

text \<open>
  One constructor for each channel the \<^verbatim>\<open>select\<close> receives from. (The \<^verbatim>\<open>init\<close> of
  \<^verbatim>\<open>log.go\<close> makes \<^verbatim>\<open>Sink\<close>, \<^verbatim>\<open>NewLevel\<close> and \<^verbatim>\<open>Prefix\<close> only; the cases of the two
  other channels are modelled as they are written.)
\<close>

datatype command =
  RegisterLogger Instance
| DeRegisterLogger string
| NewLevel LogLevel
| Prefix string
| Sink Message

definition AddLoggerInstance :: "string \<Rightarrow> writer \<Rightarrow> string list \<Rightarrow> command" where
  "AddLoggerInstance name outp tgs = RegisterLogger (initialize (newInstance name outp tgs))"

definition Log :: "LogLevel \<Rightarrow> gvalue \<Rightarrow> string \<Rightarrow> gvalue list \<Rightarrow> command" where
  "Log lv subject format elements =
     Sink \<lparr>Level = lv, Subject = subject, Tags = [], Format = format, Elements = elements\<rparr>"

definition IsProduction :: "bool \<Rightarrow> command option" where
  "IsProduction b = (if b then Some (NewLevel Warning_level) else None)"

definition initial :: FixedGlobals where
  "initial =
     \<lparr>level = Info_level,
      gologgers = [initialize (newInstance ''default'' Stdout [])],
      written = [],
      prefix_str = []\<rparr>"

text \<open>
  One turn of the \<^verbatim>\<open>select\<close> loop. \<open>stack\<close> is the room left on the goroutine stack (see
  \<open>LogLevel_String\<close>) and \<open>clock n\<close> the time read by the \<open>n\<close>-th \<^verbatim>\<open>Printf\<close> of the turn.
\<close>

text \<open>The body of each of the two printing loops: one sink, one \<^verbatim>\<open>Printf\<close>.\<close>

definition printSubject ::
  "nat \<Rightarrow> (nat \<Rightarrow> string \<times> string) \<Rightarrow> Message \<Rightarrow> nat \<Rightarrow> Instance \<Rightarrow> failure + writer \<times> string" where
  "printSubject stack clock msg n l =
     bindF (Sprintf (LogLevel_String stack) (Format msg) (Elements msg))
       (\<lambda>body. Logger_Printf (LogLevel_String stack) (log l) (clock n)
           ''[%v] %v, %v'' [VLevel (Level msg), Subject msg, VString body])"

definition printPlain ::
  "nat \<Rightarrow> (nat \<Rightarrow> string \<times> string) \<Rightarrow> Message \<Rightarrow> nat \<Rightarrow> Instance \<Rightarrow> failure + writer \<times> string" where
  "printPlain stack clock msg n l =
     bindF (Sprintf (LogLevel_String stack) (Format msg) (Elements msg))
       (\<lambda>body. Logger_Printf (LogLevel_String stack) (log l) (clock n)
           ''[%v] %v'' [VLevel (Level msg), VString body])"

fun dispatch ::
  "nat \<Rightarrow> (nat \<Rightarrow> string \<times> string) \<Rightarrow> FixedGlobals \<Rightarrow> command \<Rightarrow> failure + FixedGlobals" where
  "dispatch stack clock st (RegisterLogger logger) =
     Inr (st\<lparr>gologgers := gologgers st @ [logger]\<rparr>)"
| "dispatch stack clock st (DeRegisterLogger name) =
     Inr (st\<lparr>gologgers := deregister name (gologgers st)\<rparr>)"
| "dispatch stack clock st (NewLevel newLevel) =
     Inr (st\<lparr>level := newLevel\<rparr>)"
| "dispatch stack clock st (Prefix prfx) =
     Inr (st\<lparr>prefix_str := prfx,
            gologgers := map (\<lambda>l. l\<lparr>log := Some (log_New (output l) prfx LstdFlags)\<rparr>)
                           (gologgers st)\<rparr>)"
| "dispatch stack clock st (Sink msg) =
     (if Level msg < level st then Inr st
      else
        let loggers = selectLoggers msg (gologgers st) [] in
        if length loggers = 0 then Inr st
        else if Subject msg \<noteq> VNil then
          bindF (forEachLogger (printSubject stack clock msg) 0 loggers (written st))
            (\<lambda>w. Inr (st\<lparr>written := w\<rparr>))
        else
          bindF (forEachLogger (printPlain stack clock msg) 0 loggers (written st))
            (\<lambda>w. Inr (st\<lparr>written := w\<rparr>)))"

subsection \<open>The template variant\<close>

datatype tpl_command =
  RegisterLogger_tpl TplInstance
| DeRegisterLogger_tpl string
| NewLevel_tpl LogLevel
| Sink_tpl TplMessage

definition AddLoggerInstance_tpl ::
  "string \<Rightarrow> string \<Rightarrow> writer \<Rightarrow> string list \<Rightarrow> tpl_command" where
  "AddLoggerInstance_tpl name format outp tgs =
     RegisterLogger_tpl (initialize_tpl (newInstance_tpl name format outp tgs))"

text \<open>
  What \<^verbatim>\<open>Log\<close> reads from its surroundings: the caller's file, line and (when
  \<^verbatim>\<open>runtime.FuncForPC\<close> finds it) function name, and the texts of \<^verbatim>\<open>time.Now()\<close> and of
  the time since \<^verbatim>\<open>start\<close>.
\<close>

record CallSite =
  caller_file :: string
  caller_line :: int
  caller_fun :: "string option"
  time_now :: string
  since_start :: string

definition Log_tpl ::
  "CallSite \<Rightarrow> LogLevel \<Rightarrow> gvalue \<Rightarrow> string \<Rightarrow> gvalue list \<Rightarrow> tpl_command" where
  "Log_tpl site lv subject format elements =
     (let name = (case caller_fun site of None \<Rightarrow> caller_file site | Some f \<Rightarrow> f);
          vals = [ExpandLineNumber \<mapsto> Itoa (caller_line site),
                  ExpandFunctionName \<mapsto> name,
                  ExpandTime \<mapsto> time_now site,
                  ExpandDuration \<mapsto> since_start site]
      in Sink_tpl \<lparr>Level = lv, Subject = subject, Tags = [], Format = format,
                   Elements = elements, values = Some vals\<rparr>)"

definition IsProduction_tpl :: "bool \<Rightarrow> tpl_command option" where
  "IsProduction_tpl b = (if b then Some (NewLevel_tpl Warning_level) else None)"

definition initial_tpl :: "TplInstance Globals" where
  "initial_tpl =
     \<lparr>level = Info_level,
      gologgers = [initialize_tpl (newInstance_tpl ''default'' ''[LEVEL] SUBJECT, MESSAGE'' Stdout [])],
      written = []\<rparr>"

text \<open>
  \<^verbatim>\<open>expand\<close> ranges over the map \<^verbatim>\<open>msg.values\<close> and replaces each key by its value, one
  key after the other, in the string the previous keys have already rewritten. Go leaves
  the order of a \<^verbatim>\<open>range\<close> over a map open and varies it from one loop to the next, so
  the order in which this loop meets the keys is the first argument. A nil map has no
  keys.
\<close>

definition expand :: "string list \<Rightarrow> string \<Rightarrow> TplMessage \<Rightarrow> string" where
  "expand order format msg =
     (case values msg of
        None \<Rightarrow> format
      | Some vals \<Rightarrow>
          foldl (\<lambda>format expand. case vals expand of
                    None \<Rightarrow> format
                  | Some v \<Rightarrow> Replace_all format expand v)
            format order)"

definition rangeOrder :: "(string \<rightharpoonup> string) option \<Rightarrow> string list \<Rightarrow> bool" where
  "rangeOrder m order =
     (distinct order \<and> set order = (case m of None \<Rightarrow> {} | Some vals \<Rightarrow> dom vals))"

text \<open>A store into a nil map is a run-time panic.\<close>

definition setValue :: "TplMessage \<Rightarrow> string \<Rightarrow> string \<Rightarrow> failure + TplMessage" where
  "setValue msg k v =
     (case values msg of
        None \<Rightarrow> Inl (Panic ''assignment to entry in nil map'')
      | Some vals \<Rightarrow> Inr (msg\<lparr>values := Some (vals(k \<mapsto> v))\<rparr>))"

text \<open>
  The three stores that complete the context of a message before any sink renders it:
  the interpolated body, the subject under \<^verbatim>\<open>%v\<close> and the label of the level.
\<close>

definition fillValues :: "nat \<Rightarrow> TplMessage \<Rightarrow> failure + TplMessage" where
  "fillValues stack msg =
     bindF (Sprintf (LogLevel_String stack) (Format msg) (Elements msg)) (\<lambda>body.
     bindF (setValue msg ExpandMessage body) (\<lambda>msg1.
     bindF (Sprintf (LogLevel_String stack) ''%v'' [Subject msg1]) (\<lambda>subject.
     bindF (setValue msg1 ExpandSubject subject) (\<lambda>msg2.
     bindF (LogLevel_String stack (Level msg2)) (\<lambda>lv.
     setValue msg2 ExpandMessageLevel lv)))))"

text \<open>
  The body of the printing loop. The expanded template is handed to \<^verbatim>\<open>Printf\<close> as its
  format, with no operands. \<open>order n\<close> is the order in which the \<^verbatim>\<open>expand\<close> of the
  \<open>n\<close>-th sink meets the keys.
\<close>

definition printExpanded ::
  "nat \<Rightarrow> (nat \<Rightarrow> string \<times> string) \<Rightarrow> (nat \<Rightarrow> string list) \<Rightarrow> TplMessage \<Rightarrow> nat
     \<Rightarrow> TplInstance \<Rightarrow> failure + writer \<times> string" where
  "printExpanded stack clock order msg n l =
     (let format = expand (order n) (Format_sink l) msg
      in Logger_Printf (LogLevel_String stack) (log l) (clock n) format [])"

fun dispatch_tpl ::
  "nat \<Rightarrow> (nat \<Rightarrow> string \<times> string) \<Rightarrow> (nat \<Rightarrow> string list) \<Rightarrow> TplInstance Globals
     \<Rightarrow> tpl_command \<Rightarrow> failure + TplInstance Globals" where
  "dispatch_tpl stack clock order st (RegisterLogger_tpl logger) =
     Inr (st\<lparr>gologgers := gologgers st @ [logger]\<rparr>)"
| "dispatch_tpl stack clock order st (DeRegisterLogger_tpl name) =
     Inr (st\<lparr>gologgers := deregister name (gologgers st)\<rparr>)"
| "dispatch_tpl stack clock order st (NewLevel_tpl newLevel) =
     Inr (st\<lparr>level := newLevel\<rparr>)"
| "dispatch_tpl stack clock order st (Sink_tpl msg) =
     (if Level msg < level st then Inr st
      else
        let loggers = selectLoggers msg (gologgers st) [] in
        if length loggers = 0 then Inr st
        else
          bindF (fillValues stack msg) (\<lambda>msg'.
          bindF (forEachLogger (printExpanded stack clock order msg') 0 loggers (written st))
            (\<lambda>w. Inr (st\<lparr>written := w\<rparr>))))"

section \<open>The specification's own notions\<close>

text \<open>
  These definitions follow the words of the specification, not the code; the theorems
  compare the code with them. A sink matches a message if its tag filter is empty or
  shares a tag with the message.
\<close>

definition spec_matches :: "'m Message_scheme \<Rightarrow> 'i Instance_scheme \<Rightarrow> bool" where
  "spec_matches msg l \<longleftrightarrow> tags l = [] \<or> set (tags l) \<inter> set (Tags msg) \<noteq> {}"

text \<open>
  The fixed layout: \<^verbatim>\<open>[<LEVEL>] <subject>, <body>\<close> when the subject is present, else
  \<^verbatim>\<open>[<LEVEL>] <body>\<close>.
\<close>

definition spec_FixedLayout :: "string \<Rightarrow> string option \<Rightarrow> string \<Rightarrow> string" where
  "spec_FixedLayout lv subject body =
     (case subject of
        Some s \<Rightarrow> ''['' @ lv @ ''] '' @ s @ '', '' @ body
      | None \<Rightarrow> ''['' @ lv @ ''] '' @ body)"

text \<open>A line as it is written: ended by a newline, which is added unless it is there.\<close>

definition spec_line :: "string \<Rightarrow> string" where
  "spec_line s = s @ (if s = [] \<or> last s \<noteq> newline then [newline] else [])"









section \<open>Basic facts\<close>

lemmas level_defs =
  All_level_def Trace_level_def Debug_level_def Info_level_def Warning_level_def
  Error_level_def None_level_def

lemma bindF_simps [simp]:
  "bindF (Inl e) f = Inl e"
  "bindF (Inr x) f = f x"
  by (simp_all add: bindF_def)

lemma bindF_eq_Inr: "bindF m f = Inr y \<longleftrightarrow> (\<exists>x. m = Inr x \<and> f x = Inr y)"
  by (cases m) simp_all

subsection \<open>Severities and their labels\<close>

lemma String_labels:
  "LogLevel_String stack All_level = Inr ''ALL ''"
  "LogLevel_String stack Trace_level = Inr ''TRC ''"
  "LogLevel_String stack Debug_level = Inr ''DBG ''"
  "LogLevel_String stack Info_level = Inr ''INFO''"
  "LogLevel_String stack Warning_level = Inr ''WARN''"
  "LogLevel_String stack Error_level = Inr ''ERR ''"
  "LogLevel_String stack None_level = Inr ''NONE''"
  by (simp_all add: LogLevel_String.simps level_defs)

lemma level_cases:
  assumes "ll \<le> None_level"
  shows "ll = All_level \<or> ll = Trace_level \<or> ll = Debug_level \<or> ll = Info_level \<or>
     ll = Warning_level \<or> ll = Error_level \<or> ll = None_level"
proof -
  have "unat ll \<le> 6"
    using assms by (simp add: word_le_nat_alt None_level_def)
  then have "unat ll = 0 \<or> unat ll = 1 \<or> unat ll = 2 \<or> unat ll = 3 \<or> unat ll = 4
      \<or> unat ll = 5 \<or> unat ll = 6"
    by arith
  then show ?thesis
    unfolding level_defs word_unat_eq_iff [of ll] by simp
qed

lemma String_inside:
  assumes "ll \<le> None_level"
  shows "\<exists>s. LogLevel_String stack ll = Inr s \<and> length s = 4"
  using level_cases [OF assms] by (auto simp: String_labels)

text \<open>
  The format of the default branch has one directive, \<^verbatim>\<open>%v\<close>, and its operand is the
  level itself: formatting it is a call of the \<^verbatim>\<open>String\<close> method.
\<close>

lemma String_default_format:
  "Sprintf str ''No such log level, %v'' [VLevel ll] =
     bindF (handleMethods str (CHR ''v'') ll) (\<lambda>s. Inr (''No such log level, '' @ s))"
  by (simp add: Sprintf_def printArg_def extra_def bindF_def split: sum.splits)

lemma outside_levels:
  "None_level < ll \<Longrightarrow>
     ll \<noteq> None_level \<and> ll \<noteq> Error_level \<and> ll \<noteq> Warning_level \<and> ll \<noteq> Info_level \<and>
     ll \<noteq> Debug_level \<and> ll \<noteq> Trace_level \<and> ll \<noteq> All_level"
  by (auto simp: level_defs)

text \<open>
  So the default branch never reaches its \<^verbatim>\<open>panic\<close>: each call makes the next, until the
  stack is used up, however much room there was.
\<close>

lemma String_outside:
  "None_level < ll \<Longrightarrow> LogLevel_String stack ll = Inl StackOverflow"
proof (induction stack)
  case 0
  then show ?case
    using outside_levels [of ll] by (simp add: LogLevel_String.simps)
next
  case (Suc stack)
  then show ?case
    using outside_levels [of ll]
    by (simp add: LogLevel_String.simps [of "Suc stack"] String_default_format handleMethods_def)
qed

text \<open>
  C6. \<^verbatim>\<open>LogLevel.String\<close> returns the four-character label of each of the seven
  severities, \<^verbatim>\<open>"ALL "\<close>, \<^verbatim>\<open>"TRC "\<close>, \<^verbatim>\<open>"DBG "\<close>, \<^verbatim>\<open>"INFO"\<close>, \<^verbatim>\<open>"WARN"\<close>, \<^verbatim>\<open>"ERR "\<close> and
  \<^verbatim>\<open>"NONE"\<close>; for every other value of the type it returns no label and ends the program.
  The way it ends is the fatal stack exhaustion of the default branch, whose message
  formats the level with \<^verbatim>\<open>%v\<close> and so calls \<^verbatim>\<open>String\<close> again.
\<close>

theorem LogLevel_String_total:
  "LogLevel_String stack All_level = Inr ''ALL '' \<and>
   LogLevel_String stack Trace_level = Inr ''TRC '' \<and>
   LogLevel_String stack Debug_level = Inr ''DBG '' \<and>
   LogLevel_String stack Info_level = Inr ''INFO'' \<and>
   LogLevel_String stack Warning_level = Inr ''WARN'' \<and>
   LogLevel_String stack Error_level = Inr ''ERR '' \<and>
   LogLevel_String stack None_level = Inr ''NONE'' \<and>
   (ll \<notin> {All_level, Trace_level, Debug_level, Info_level, Warning_level, Error_level,
            None_level}
      \<longrightarrow> LogLevel_String stack ll = Inl StackOverflow)"
proof -
  have "LogLevel_String stack ll = Inl StackOverflow"
    if "ll \<notin> {All_level, Trace_level, Debug_level, Info_level, Warning_level, Error_level,
                None_level}"
  proof -
    have "\<not> ll \<le> None_level"
      using that level_cases [of ll] by auto
    then have "None_level < ll"
      by simp
    then show ?thesis
      by (rule String_outside)
  qed
  then show ?thesis
    by (simp add: String_labels)
qed

theorem LogLevel_String_total_witness:
  "(200 :: LogLevel) \<notin> {All_level, Trace_level, Debug_level, Info_level, Warning_level,
      Error_level, None_level}
   \<and> LogLevel_String 1000 200 = Inl StackOverflow
   \<and> LogLevel_String 1000 Warning_level = Inr ''WARN''"
  using LogLevel_String_total [of 1000 200] by (simp add: level_defs)

subsection \<open>When formatting returns\<close>





subsection \<open>Tags, selection, removal and the printing loop\<close>

lemma matchTag_iff: "matchTag t logTags \<longleftrightarrow> t \<in> set logTags"
  by (induction logTags) auto

lemma matchTags_iff: "matchTags msgTags logTags \<longleftrightarrow> set msgTags \<inter> set logTags \<noteq> {}"
  by (induction msgTags) (auto simp: matchTag_iff)

lemma spec_matches_fun:
  "spec_matches msg = (\<lambda>l. tags l = [] \<or> set (tags l) \<inter> set (Tags msg) \<noteq> {})"
  by (simp add: fun_eq_iff spec_matches_def)

lemma selectLoggers_filter:
  "selectLoggers msg ls loggers = loggers @ filter (spec_matches msg) ls"
  by (induction ls arbitrary: loggers) (auto simp: matchTags_iff spec_matches_def)

lemma forEachLogger_Inr:
  assumes "\<And>i l. (i, l) \<in> set (enumerate n ls) \<Longrightarrow> body i l = Inr (f i l)"
  shows "forEachLogger body n ls w = Inr (w @ map (\<lambda>(i, l). f i l) (enumerate n ls))"
  using assms
proof (induction ls arbitrary: n w)
  case Nil
  then show ?case by simp
next
  case (Cons l ls)
  have "body n l = Inr (f n l)"
    using Cons.prems by simp
  moreover have "forEachLogger body (Suc n) ls (w @ [f n l]) =
      Inr ((w @ [f n l]) @ map (\<lambda>(i, l). f i l) (enumerate (Suc n) ls))"
    using Cons.prems by (intro Cons.IH) simp
  ultimately show ?case by simp
qed

lemma deregister_fold:
  assumes "n \<le> length gl"
  shows "case fold (deregisterStep name) [0..<n] (gl, 0) of
           (arr, i) \<Rightarrow> length arr = length gl \<and> i \<le> n
              \<and> take i arr = filter (\<lambda>l. Name l \<noteq> name) (take n gl)
              \<and> drop n arr = drop n gl"
  using assms
proof (induction n)
  case 0
  then show ?case by simp
next
  case (Suc n)
  obtain arr i where f: "fold (deregisterStep name) [0..<n] (gl, 0) = (arr, i)"
    by (cases "fold (deregisterStep name) [0..<n] (gl, 0)")
  with Suc have inv: "length arr = length gl" "i \<le> n"
    "take i arr = filter (\<lambda>l. Name l \<noteq> name) (take n gl)" "drop n arr = drop n gl"
    by simp_all
  have n: "n < length gl" using Suc.prems by simp
  have step: "fold (deregisterStep name) [0..<Suc n] (gl, 0) = deregisterStep name n (arr, i)"
    using f by simp
  have at: "arr ! n = gl ! n"
    using inv(4) n inv(1) by (metis Cons_nth_drop_Suc list.inject)
  have tk: "take (Suc n) gl = take n gl @ [gl ! n]"
    using n by (simp add: take_Suc_conv_app_nth)
  have "drop (Suc n) arr = drop 1 (drop n arr)" "drop (Suc n) gl = drop 1 (drop n gl)"
    by simp_all
  with inv(4) have dr: "drop (Suc n) arr = drop (Suc n) gl"
    by (simp only:)
  show ?case
  proof (cases "Name (gl ! n) = name")
    case True
    then show ?thesis
      unfolding step using inv at tk dr by (simp add: deregisterStep_def)
  next
    case False
    have "take (Suc i) (arr[i := gl ! n]) = take i arr @ [gl ! n]"
      using inv(1,2) n by (simp add: take_Suc_conv_app_nth)
    then show ?thesis
      unfolding step using inv at tk dr False by (simp add: deregisterStep_def)
  qed
qed

lemma deregister_filter: "deregister name gl = filter (\<lambda>l. Name l \<noteq> name) gl"
  using deregister_fold [of "length gl" gl name]
  by (auto simp: deregister_def split: prod.splits)


lemma Sprintf_fixed_subject:
  "Sprintf str ''[%v] %v, %v'' [VLevel ll, subject, VString body] =
     bindF (handleMethods str (CHR ''v'') ll) (\<lambda>a.
     bindF (printArg str subject (CHR ''v'')) (\<lambda>b. Inr (''['' @ a @ ''] '' @ b @ '', '' @ body)))"
  by (simp add: Sprintf_def extra_def printArg_def bindF_def split: sum.splits)

lemma Sprintf_fixed_plain:
  "Sprintf str ''[%v] %v'' [VLevel ll, VString body] =
     bindF (handleMethods str (CHR ''v'') ll) (\<lambda>a. Inr (''['' @ a @ ''] '' @ body))"
  by (simp add: Sprintf_def extra_def printArg_def bindF_def split: sum.splits)

lemma Sprintf_v: "Sprintf str ''%v'' [a] = printArg str a (CHR ''v'')"
  by (simp add: Sprintf_def extra_def bindF_def split: sum.splits)

lemma Sprintf_no_percent: "CHR ''%'' \<notin> set s \<Longrightarrow> Sprintf str s [] = Inr s"
  unfolding Sprintf_def by (induction s) (auto simp: extra_def)

lemma handleMethods_Inr: "str ll = Inr s \<Longrightarrow> handleMethods str verb ll = Inr s"
  by (simp add: handleMethods_def)

lemma printSubject_Inr:
  assumes "LogLevel_String stack (Level msg) = Inr lv"
    and "Sprintf (LogLevel_String stack) (Format msg) (Elements msg) = Inr body"
    and "printArg (LogLevel_String stack) (Subject msg) (CHR ''v'') = Inr subj"
    and "log l = Some lg"
  shows "printSubject stack clock msg n l =
     Inr (Logger_Output lg (clock n) (''['' @ lv @ ''] '' @ subj @ '', '' @ body))"
  using assms
  by (simp add: printSubject_def Logger_Printf_def Sprintf_fixed_subject handleMethods_Inr)

lemma printPlain_Inr:
  assumes "LogLevel_String stack (Level msg) = Inr lv"
    and "Sprintf (LogLevel_String stack) (Format msg) (Elements msg) = Inr body"
    and "log l = Some lg"
  shows "printPlain stack clock msg n l =
     Inr (Logger_Output lg (clock n) (''['' @ lv @ ''] '' @ body))"
  using assms
  by (simp add: printPlain_def Logger_Printf_def Sprintf_fixed_plain handleMethods_Inr)


lemma enumerate_member: "(i, l) \<in> set (enumerate n ls) \<Longrightarrow> l \<in> set ls"
  by (auto simp: in_set_enumerate_eq)

lemma dispatch_Sink_delivers:
  assumes lv: "LogLevel_String stack (Level msg) = Inr lv"
    and body: "Sprintf (LogLevel_String stack) (Format msg) (Elements msg) = Inr body"
    and subj: "printArg (LogLevel_String stack) (Subject msg) (CHR ''v'') = Inr subj"
    and init: "\<And>l. l \<in> set (gologgers st) \<Longrightarrow> spec_matches msg l \<Longrightarrow> log l \<noteq> None"
    and thr: "level st \<le> Level msg"
  shows "dispatch stack clock st (Sink msg) =
     Inr (st\<lparr>written := written st @
            map (\<lambda>(n, l). Logger_Output (the (log l)) (clock n)
                   (if Subject msg \<noteq> VNil then ''['' @ lv @ ''] '' @ subj @ '', '' @ body
                    else ''['' @ lv @ ''] '' @ body))
              (enumerate 0 (filter (spec_matches msg) (gologgers st)))\<rparr>)"
proof -
  let ?cands = "filter (spec_matches msg) (gologgers st)"
  have sel: "selectLoggers msg (gologgers st) [] = ?cands"
    by (simp add: selectLoggers_filter)
  have nlt: "\<not> Level msg < level st"
    using thr by simp
  have lg: "log l = Some (the (log l))" if "(i, l) \<in> set (enumerate 0 ?cands)" for i l
    using init [of l] enumerate_member [OF that] by auto
  show ?thesis
  proof (cases "?cands = []")
    case True
    then show ?thesis
      using nlt sel by simp
  next
    case False
    show ?thesis
    proof (cases "Subject msg = VNil")
      case True
      have "forEachLogger (printPlain stack clock msg) 0 ?cands (written st) =
          Inr (written st @ map (\<lambda>(n, l). Logger_Output (the (log l)) (clock n)
                 (''['' @ lv @ ''] '' @ body)) (enumerate 0 ?cands))"
      proof (rule forEachLogger_Inr)
        fix i l
        assume "(i, l) \<in> set (enumerate 0 ?cands)"
        then have "log l = Some (the (log l))"
          by (rule lg)
        then show "printPlain stack clock msg i l =
            Inr (Logger_Output (the (log l)) (clock i) (''['' @ lv @ ''] '' @ body))"
          by (rule printPlain_Inr [OF lv body])
      qed
      then show ?thesis
        using nlt sel False True by simp
    next
      case nonnil: False
      have "forEachLogger (printSubject stack clock msg) 0 ?cands (written st) =
          Inr (written st @ map (\<lambda>(n, l). Logger_Output (the (log l)) (clock n)
                 (''['' @ lv @ ''] '' @ subj @ '', '' @ body)) (enumerate 0 ?cands))"
      proof (rule forEachLogger_Inr)
        fix i l
        assume "(i, l) \<in> set (enumerate 0 ?cands)"
        then have "log l = Some (the (log l))"
          by (rule lg)
        then show "printSubject stack clock msg i l =
            Inr (Logger_Output (the (log l)) (clock i) (''['' @ lv @ ''] '' @ subj @ '', '' @ body))"
          by (rule printSubject_Inr [OF lv body subj])
      qed
      then show ?thesis
        using nlt sel False nonnil by simp
    qed
  qed
qed

subsection \<open>Replacing a token\<close>


lemma Contains_sublist: "Contains s old \<longleftrightarrow> sublist old s"
  by (induction s) (auto simp: sublist_Cons_right)

lemma replaceFrom_absent: "\<not> Contains s old \<Longrightarrow> replaceFrom old new s = s"
  by (induction s) auto






lemma Replace_all_absent: "\<not> Contains s old \<Longrightarrow> Replace_all s old new = s"
proof -
  assume a: "\<not> Contains s old"
  then have "old \<noteq> []"
    by (cases s) auto
  then show ?thesis
    using a by (simp add: Replace_all_def replaceFrom_absent)
qed

lemma set_replaceFrom: "set (replaceFrom old new s) \<subseteq> set s \<union> set new"
proof (induction old new s rule: replaceFrom.induct)
  case (1 old new)
  then show ?case by simp
next
  case (2 old new c cs)
  show ?case
  proof (cases "old \<noteq> [] \<and> prefix old (c # cs)")
    case True
    have "set (drop (length old) (c # cs)) \<subseteq> set (c # cs)"
      by (rule set_drop_subset)
    then show ?thesis
      using 2(1) True by auto
  next
    case False
    then show ?thesis
      using 2(2) by auto
  qed
qed

lemma set_insertAll: "set (insertAll new s) \<subseteq> set s \<union> set new"
  by (induction s) auto

lemma set_Replace_all: "set (Replace_all s old new) \<subseteq> set s \<union> set new"
  using set_replaceFrom [of old new s] set_insertAll [of new s]
  by (auto simp: Replace_all_def)

subsection \<open>Expanding a template and delivering through it\<close>

lemma expand_nil: "values msg = None \<Longrightarrow> expand order format msg = format"
  by (simp add: expand_def)

lemma expand_foldl:
  "values msg = Some vals \<Longrightarrow>
     expand order format msg =
       foldl (\<lambda>format expand. case vals expand of
                 None \<Rightarrow> format
               | Some v \<Rightarrow> Replace_all format expand v) format order"
  by (simp add: expand_def)

lemma expand_Nil: "expand [] format msg = format"
  by (simp add: expand_def split: option.splits)

lemma expand_Cons:
  "values msg = Some vals \<Longrightarrow>
     expand (k # order) format msg =
       expand order (case vals k of None \<Rightarrow> format | Some v \<Rightarrow> Replace_all format k v) msg"
  by (simp add: expand_def)

lemma expand_append:
  "expand (order1 @ order2) format msg = expand order2 (expand order1 format msg) msg"
  by (simp add: expand_def split: option.splits)

lemma expand_untouched:
  assumes "values msg = Some vals"
    and "\<forall>k \<in> set order. k \<in> dom vals \<longrightarrow> \<not> Contains format k"
  shows "expand order format msg = format"
  using assms(2)
proof (induction order)
  case Nil
  show ?case by (rule expand_Nil)
next
  case (Cons k order)
  have "(case vals k of None \<Rightarrow> format | Some v \<Rightarrow> Replace_all format k v) = format"
    using Cons.prems by (auto simp: Replace_all_absent split: option.splits)
  then show ?case
    using Cons by (simp add: expand_Cons [OF assms(1)])
qed

lemma expand_one_token:
  assumes vals: "values msg = Some vals" and k: "vals k = Some v"
    and order: "distinct order" "k \<in> set order"
    and before: "\<forall>k' \<in> dom vals. k' \<noteq> k \<longrightarrow> \<not> Contains format k'"
    and after: "\<forall>k' \<in> dom vals. k' \<noteq> k \<longrightarrow> \<not> Contains (Replace_all format k v) k'"
  shows "expand order format msg = Replace_all format k v"
proof -
  obtain pre post where split: "order = pre @ k # post"
    using order(2) by (auto dest: split_list)
  have notin: "k \<notin> set pre" "k \<notin> set post"
    using order(1) unfolding split by auto
  have "expand pre format msg = format"
    using before notin(1) by (intro expand_untouched [OF vals]) auto
  moreover have "expand [k] format msg = Replace_all format k v"
    using k by (simp add: expand_Cons [OF vals] expand_Nil)
  moreover have "expand post (Replace_all format k v) msg = Replace_all format k v"
    using after notin(2) by (intro expand_untouched [OF vals]) auto
  ultimately show ?thesis
    unfolding split using expand_append [of pre "k # post" format msg]
      expand_append [of "[k]" post format msg] by simp
qed

lemma set_expand:
  assumes "values msg = Some vals"
  shows "set (expand order format msg) \<subseteq> set format \<union> \<Union> (set ` ran vals)"
proof (induction order arbitrary: format)
  case Nil
  show ?case by (simp add: expand_Nil)
next
  case (Cons k order)
  show ?case
  proof (cases "vals k")
    case None
    then show ?thesis
      using Cons [of format] by (simp add: expand_Cons [OF assms])
  next
    case (Some v)
    have "set v \<subseteq> \<Union> (set ` ran vals)"
      using Some by (auto simp: ran_def)
    then have "set (Replace_all format k v) \<subseteq> set format \<union> \<Union> (set ` ran vals)"
      using set_Replace_all [of format k v] by auto
    then show ?thesis
      using Cons [of "Replace_all format k v"] Some by (auto simp: expand_Cons [OF assms])
  qed
qed

lemma fillValues_Inr:
  assumes "values msg = Some vals"
    and "Sprintf (LogLevel_String stack) (Format msg) (Elements msg) = Inr body"
    and "printArg (LogLevel_String stack) (Subject msg) (CHR ''v'') = Inr subj"
    and "LogLevel_String stack (Level msg) = Inr lv"
  shows "fillValues stack msg =
     Inr (msg\<lparr>values := Some (vals(ExpandMessage \<mapsto> body, ExpandSubject \<mapsto> subj,
                                   ExpandMessageLevel \<mapsto> lv))\<rparr>)"
  using assms by (simp add: fillValues_def setValue_def Sprintf_v)

lemma fillValues_nil_map:
  assumes "values msg = None"
    and "Sprintf (LogLevel_String stack) (Format msg) (Elements msg) = Inr body"
  shows "fillValues stack msg = Inl (Panic ''assignment to entry in nil map'')"
  using assms by (simp add: fillValues_def setValue_def)

lemma printExpanded_Inr:
  assumes "log l = Some lg"
    and "Sprintf (LogLevel_String stack) (expand (order n) (Format_sink l) msg) [] = Inr ln"
  shows "printExpanded stack clock order msg n l = Inr (Logger_Output lg (clock n) ln)"
  using assms by (simp add: printExpanded_def Logger_Printf_def)


lemma dispatch_tpl_Sink_delivers:
  assumes fill: "fillValues stack msg = Inr msg'"
    and init: "\<And>l. l \<in> set (gologgers st) \<Longrightarrow> spec_matches msg l \<Longrightarrow> log l \<noteq> None"
    and line: "\<And>n l. (n, l) \<in> set (enumerate 0 (filter (spec_matches msg) (gologgers st))) \<Longrightarrow>
        Sprintf (LogLevel_String stack) (expand (order n) (Format_sink l) msg') [] = Inr (line n l)"
    and thr: "level st \<le> Level msg"
  shows "dispatch_tpl stack clock order st (Sink_tpl msg) =
     Inr (st\<lparr>written := written st @
            map (\<lambda>(n, l). Logger_Output (the (log l)) (clock n) (line n l))
              (enumerate 0 (filter (spec_matches msg) (gologgers st)))\<rparr>)"
proof -
  let ?cands = "filter (spec_matches msg) (gologgers st)"
  have sel: "selectLoggers msg (gologgers st) [] = ?cands"
    by (simp add: selectLoggers_filter)
  have nlt: "\<not> Level msg < level st"
    using thr by simp
  have lg: "log l = Some (the (log l))" if "(i, l) \<in> set (enumerate 0 ?cands)" for i l
    using init [of l] enumerate_member [OF that] by auto
  show ?thesis
  proof (cases "?cands = []")
    case True
    then show ?thesis
      using nlt sel by simp
  next
    case False
    have "forEachLogger (printExpanded stack clock order msg') 0 ?cands (written st) =
        Inr (written st @ map (\<lambda>(n, l). Logger_Output (the (log l)) (clock n) (line n l))
               (enumerate 0 ?cands))"
    proof (rule forEachLogger_Inr)
      fix i l
      assume m: "(i, l) \<in> set (enumerate 0 ?cands)"
      show "printExpanded stack clock order msg' i l =
          Inr (Logger_Output (the (log l)) (clock i) (line i l))"
        using lg [OF m] line [OF m] by (rule printExpanded_Inr)
    qed
    then show ?thesis
      using nlt sel False fill by simp
  qed
qed

subsection \<open>Templates of several tokens\<close>














subsection \<open>The sinks stay initialised\<close>

text \<open>
  Delivery supposes that the selected sinks have a logger. The initial sink has one, and
  every turn keeps this property as long as sinks are registered through
  \<^verbatim>\<open>AddLoggerInstance\<close>: in \<^verbatim>\<open>log.go\<close> a logger with \<^verbatim>\<open>LstdFlags\<close>, in the template variant
  the logger on the sink's own output, without prefix and flags.
\<close>

lemma dispatch_Sink_gologgers:
  "dispatch stack clock st (Sink msg) = Inr st' \<Longrightarrow> gologgers st' = gologgers st"
  by (auto simp: Let_def bindF_eq_Inr split: if_splits)

lemma dispatch_tpl_Sink_gologgers:
  "dispatch_tpl stack clock order st (Sink_tpl msg) = Inr st' \<Longrightarrow> gologgers st' = gologgers st"
  by (auto simp: Let_def bindF_eq_Inr split: if_splits)

lemma dispatch_keeps_loggers:
  assumes "\<forall>l \<in> set (gologgers st). \<exists>w p. log l = Some (log_New w p LstdFlags)"
    and "(\<exists>name outp tgs. cmd = AddLoggerInstance name outp tgs) \<or> (\<forall>l. cmd \<noteq> RegisterLogger l)"
    and "dispatch stack clock st cmd = Inr st'"
  shows "\<forall>l \<in> set (gologgers st'). \<exists>w p. log l = Some (log_New w p LstdFlags)"
proof (cases cmd)
  case (RegisterLogger l)
  then show ?thesis
    using assms by (auto simp: AddLoggerInstance_def initialize_def) blast
next
  case (DeRegisterLogger name)
  then show ?thesis
    using assms by (auto simp: deregister_filter)
next
  case (NewLevel lv)
  then show ?thesis
    using assms by auto
next
  case (Prefix p)
  then show ?thesis
    using assms(3) by auto blast
next
  case (Sink msg)
  then show ?thesis
    using assms(1) dispatch_Sink_gologgers [of stack clock st msg st'] assms(3) by simp
qed

lemma dispatch_tpl_keeps_loggers:
  assumes "\<forall>l \<in> set (gologgers st). log l = Some (log_New (output l) [] 0)"
    and "(\<exists>name format outp tgs. cmd = AddLoggerInstance_tpl name format outp tgs)
          \<or> (\<forall>l. cmd \<noteq> RegisterLogger_tpl l)"
    and "dispatch_tpl stack clock order st cmd = Inr st'"
  shows "\<forall>l \<in> set (gologgers st'). log l = Some (log_New (output l) [] 0)"
proof (cases cmd)
  case (RegisterLogger_tpl l)
  then show ?thesis
    using assms by (auto simp: AddLoggerInstance_tpl_def initialize_tpl_def)
next
  case (DeRegisterLogger_tpl name)
  then show ?thesis
    using assms by (auto simp: deregister_filter)
next
  case (NewLevel_tpl lv)
  then show ?thesis
    using assms by auto
next
  case (Sink_tpl msg)
  then show ?thesis
    using assms(1) dispatch_tpl_Sink_gologgers [of stack clock order st msg st'] assms(3) by simp
qed

lemma initial_loggers:
  "\<forall>l \<in> set (gologgers initial). \<exists>w p. log l = Some (log_New w p LstdFlags)"
  "\<forall>l \<in> set (gologgers initial_tpl). log l = Some (log_New (output l) [] 0)"
  by (auto simp: initial_def initial_tpl_def initialize_def initialize_tpl_def)

section \<open>Routing\<close>

lemmas Expand_defs =
  ExpandFunctionName_def ExpandLineNumber_def ExpandTime_def ExpandDuration_def
  ExpandSubject_def ExpandMessageLevel_def ExpandMessage_def

lemma initial_eq:
  "initial =
     \<lparr>level = Info_level,
      gologgers = [\<lparr>Name = ''default'', output = Stdout, tags = [],
                    log = Some \<lparr>out = Stdout, lprefix = [], flag = 3\<rparr>\<rparr>],
      written = [], prefix_str = []\<rparr>"
  by (simp add: initial_def initialize_def newInstance_def log_New_def LstdFlags_def)

lemma initial_tpl_eq:
  "initial_tpl =
     \<lparr>level = Info_level,
      gologgers = [\<lparr>Name = ''default'', output = Stdout, tags = [],
                    log = Some \<lparr>out = Stdout, lprefix = [], flag = 0\<rparr>,
                    Format_sink = ''[LEVEL] SUBJECT, MESSAGE'', needsRuntime = False\<rparr>],
      written = []\<rparr>"
  by (simp add: initial_tpl_def initialize_tpl_def newInstance_tpl_def checkForRuntime_def
      log_New_def Expand_defs)

text \<open>
  C7. Processing \<^verbatim>\<open>DeRegisterLogger name\<close> removes every sink whose name is \<open>name\<close> and
  keeps the others in their order: the in-place loop leaves exactly the sinks a filter on
  the name would leave. It never fails, and when no sink has that name the state is the
  one before. This holds in both files.
\<close>

theorem DeRegister_removes_by_name:
  "deregister name ls = filter (\<lambda>l. Name l \<noteq> name) ls \<and>
   dispatch stack clock st (DeRegisterLogger name) =
     Inr (st\<lparr>gologgers := filter (\<lambda>l. Name l \<noteq> name) (gologgers st)\<rparr>) \<and>
   dispatch_tpl stack clock order tst (DeRegisterLogger_tpl name) =
     Inr (tst\<lparr>gologgers := filter (\<lambda>l. Name l \<noteq> name) (gologgers tst)\<rparr>) \<and>
   ((\<forall>l \<in> set (gologgers st). Name l \<noteq> name) \<longrightarrow>
      dispatch stack clock st (DeRegisterLogger name) = Inr st) \<and>
   ((\<forall>l \<in> set (gologgers tst). Name l \<noteq> name) \<longrightarrow>
      dispatch_tpl stack clock order tst (DeRegisterLogger_tpl name) = Inr tst)"
  by (simp add: deregister_filter filter_id_conv)

theorem DeRegister_removes_by_name_witness:
  "dispatch 0 (\<lambda>n. ([], [])) initial (DeRegisterLogger ''audit'') = Inr initial \<and>
   dispatch_tpl 0 (\<lambda>n. ([], [])) (\<lambda>n. []) initial_tpl (DeRegisterLogger_tpl ''audit'')
     = Inr initial_tpl \<and>
   deregister ''a''
     [newInstance ''a'' Stdout [], newInstance ''b'' (Handle 1) [], newInstance ''a'' (Handle 2) [],
      newInstance ''c'' Stdout []]
     = [newInstance ''b'' (Handle 1) [], newInstance ''c'' Stdout []]"
  using DeRegister_removes_by_name [of "''audit''" "[]" 0 "\<lambda>n. ([], [])" initial "\<lambda>n. []" initial_tpl]
    DeRegister_removes_by_name [of "''a''"
      "[newInstance ''a'' Stdout [], newInstance ''b'' (Handle 1) [],
        newInstance ''a'' (Handle 2) [], newInstance ''c'' Stdout []]" 0 "\<lambda>n. ([], [])" initial
      "\<lambda>n. []" initial_tpl]
  by (simp add: initial_eq initial_tpl_eq newInstance_def deregister_filter)

text \<open>
  The selection loop follows the rule of the tags. \<^verbatim>\<open>matchTags\<close> holds exactly when the two
  tag lists share an element; a sink is appended to \<^verbatim>\<open>loggers\<close> exactly when its filter is
  empty or shares a tag with the message; and a sink with a non-empty filter is never
  appended for a message without tags. The loop is the same in both files.
\<close>

lemma selectLoggers_tag_rule:
  "(matchTags (Tags msg) (tags l) \<longleftrightarrow> set (tags l) \<inter> set (Tags msg) \<noteq> {}) \<and>
   selectLoggers msg ls [] =
     filter (\<lambda>l. tags l = [] \<or> set (tags l) \<inter> set (Tags msg) \<noteq> {}) ls \<and>
   (l \<in> set (selectLoggers msg ls []) \<longleftrightarrow>
      l \<in> set ls \<and> (tags l = [] \<or> set (tags l) \<inter> set (Tags msg) \<noteq> {})) \<and>
   (tags l \<noteq> [] \<and> Tags msg = [] \<longrightarrow> l \<notin> set (selectLoggers msg ls []))"
proof -
  have m: "matchTags (Tags msg) (tags l) \<longleftrightarrow> set (tags l) \<inter> set (Tags msg) \<noteq> {}"
    by (auto simp: matchTags_iff)
  have s: "selectLoggers msg ls [] =
      filter (\<lambda>l. tags l = [] \<or> set (tags l) \<inter> set (Tags msg) \<noteq> {}) ls"
    by (simp add: selectLoggers_filter spec_matches_fun)
  show ?thesis
    unfolding s using m by auto
qed

text \<open>
  C2 does not hold of the code: a sink the loop selects for a tagged message does not
  receive it. A message with tags can only come from a client that sends on \<^verbatim>\<open>Sink\<close>
  itself, since \<^verbatim>\<open>Log\<close> passes no tags. Take the scenario of the specification: the
  default sink without a filter and a sink \<^verbatim>\<open>db\<close> with the filter \<^verbatim>\<open>{"db"}\<close> on a handle of
  its own, registered through \<^verbatim>\<open>AddLoggerInstance\<close>, and the message
  \<^verbatim>\<open>Message{Level: Error, Tags: []string{"db"}, Format: "x"}\<close>, which is at or above the
  threshold. In the template variant the field \<^verbatim>\<open>values\<close> is not exported, so the map of
  this message is nil; both sinks are selected, and the store
  \<^verbatim>\<open>msg.values[ExpandMessage] = ...\<close> that precedes the printing loop panics: no sink is
  written to and the dispatcher ends. In \<^verbatim>\<open>log.go\<close> both sinks are selected and both lines
  go to standard output, because \<^verbatim>\<open>initialize\<close> builds every logger on \<^verbatim>\<open>os.Stdout\<close>: the
  handle of \<^verbatim>\<open>db\<close> is not written to.
\<close>

theorem tagged_message_not_received:
  "dispatch_tpl 0 (\<lambda>n. (''2024/01/01'', ''12:00:00'')) (\<lambda>n. []) initial_tpl
       (AddLoggerInstance_tpl ''db'' ''MESSAGE'' (Handle 1) [''db''])
     = Inr (initial_tpl\<lparr>gologgers :=
              [initialize_tpl (newInstance_tpl ''default'' ''[LEVEL] SUBJECT, MESSAGE'' Stdout []),
               initialize_tpl (newInstance_tpl ''db'' ''MESSAGE'' (Handle 1) [''db''])]\<rparr>) \<and>
   \<not> Error_level < level initial_tpl \<and>
   selectLoggers
       \<lparr>Level = Error_level, Subject = VNil, Tags = [''db''], Format = ''x'', Elements = [],
        values = None\<rparr>
       [initialize_tpl (newInstance_tpl ''default'' ''[LEVEL] SUBJECT, MESSAGE'' Stdout []),
        initialize_tpl (newInstance_tpl ''db'' ''MESSAGE'' (Handle 1) [''db''])] []
     = [initialize_tpl (newInstance_tpl ''default'' ''[LEVEL] SUBJECT, MESSAGE'' Stdout []),
        initialize_tpl (newInstance_tpl ''db'' ''MESSAGE'' (Handle 1) [''db''])] \<and>
   dispatch_tpl 0 (\<lambda>n. (''2024/01/01'', ''12:00:00'')) (\<lambda>n. [])
       (initial_tpl\<lparr>gologgers :=
          [initialize_tpl (newInstance_tpl ''default'' ''[LEVEL] SUBJECT, MESSAGE'' Stdout []),
           initialize_tpl (newInstance_tpl ''db'' ''MESSAGE'' (Handle 1) [''db''])]\<rparr>)
       (Sink_tpl \<lparr>Level = Error_level, Subject = VNil, Tags = [''db''], Format = ''x'',
                   Elements = [], values = None\<rparr>)
     = Inl (Panic ''assignment to entry in nil map'') \<and>
   dispatch 0 (\<lambda>n. (''2024/01/01'', ''12:00:00'')) initial
       (AddLoggerInstance ''db'' (Handle 1) [''db''])
     = Inr (initial\<lparr>gologgers :=
              [initialize (newInstance ''default'' Stdout []),
               initialize (newInstance ''db'' (Handle 1) [''db''])]\<rparr>) \<and>
   output (initialize (newInstance ''db'' (Handle 1) [''db''])) = Handle 1 \<and>
   dispatch 0 (\<lambda>n. (''2024/01/01'', ''12:00:00''))
       (initial\<lparr>gologgers :=
          [initialize (newInstance ''default'' Stdout []),
           initialize (newInstance ''db'' (Handle 1) [''db''])]\<rparr>)
       (Sink \<lparr>Level = Error_level, Subject = VNil, Tags = [''db''], Format = ''x'',
               Elements = []\<rparr>)
     = Inr (initial\<lparr>gologgers :=
              [initialize (newInstance ''default'' Stdout []),
               initialize (newInstance ''db'' (Handle 1) [''db''])],
            written :=
              [(Stdout, ''2024/01/01 12:00:00 [ERR ] x'' @ [newline]),
               (Stdout, ''2024/01/01 12:00:00 [ERR ] x'' @ [newline])]\<rparr>)"
proof -
  let ?clock = "\<lambda>n::nat. (''2024/01/01'', ''12:00:00'')"
  let ?tmsg = "\<lparr>Level = Error_level, Subject = VNil, Tags = [''db''], Format = ''x'',
                 Elements = [], values = None\<rparr>"
  let ?msg = "\<lparr>Level = Error_level, Subject = VNil, Tags = [''db''], Format = ''x'',
                Elements = []\<rparr>"
  let ?tdefault = "\<lparr>Name = ''default'', output = Stdout, tags = [],
                    log = Some \<lparr>out = Stdout, lprefix = [], flag = 0\<rparr>,
                    Format_sink = ''[LEVEL] SUBJECT, MESSAGE'', needsRuntime = False\<rparr>"
  let ?tdb = "\<lparr>Name = ''db'', output = Handle 1, tags = [''db''],
               log = Some \<lparr>out = Handle 1, lprefix = [], flag = 0\<rparr>,
               Format_sink = ''MESSAGE'', needsRuntime = False\<rparr>"
  let ?default = "\<lparr>Name = ''default'', output = Stdout, tags = [],
                    log = Some \<lparr>out = Stdout, lprefix = [], flag = 3\<rparr>\<rparr>"
  let ?db = "\<lparr>Name = ''db'', output = Handle 1, tags = [''db''],
               log = Some \<lparr>out = Stdout, lprefix = [], flag = 3\<rparr>\<rparr>"
  let ?tst = "\<lparr>level = Info_level, gologgers = [?tdefault, ?tdb], written = []\<rparr>"
  let ?st = "\<lparr>level = Info_level, gologgers = [?default, ?db], written = [], prefix_str = []\<rparr>"
  have tsinks: "initialize_tpl (newInstance_tpl ''default'' ''[LEVEL] SUBJECT, MESSAGE'' Stdout [])
        = ?tdefault"
      "initialize_tpl (newInstance_tpl ''db'' ''MESSAGE'' (Handle 1) [''db'']) = ?tdb"
    by (simp_all add: initialize_tpl_def newInstance_tpl_def checkForRuntime_def log_New_def
        Expand_defs)
  have sinks: "initialize (newInstance ''default'' Stdout []) = ?default"
      "initialize (newInstance ''db'' (Handle 1) [''db'']) = ?db"
    by (simp_all add: initialize_def newInstance_def log_New_def LstdFlags_def)
  have tst: "initial_tpl\<lparr>gologgers := [?tdefault, ?tdb]\<rparr> = ?tst"
    by (simp add: initial_tpl_eq)
  have st: "initial\<lparr>gologgers := [?default, ?db]\<rparr> = ?st"
    by (simp add: initial_eq)
  have treg: "dispatch_tpl 0 ?clock (\<lambda>n. []) initial_tpl
      (AddLoggerInstance_tpl ''db'' ''MESSAGE'' (Handle 1) [''db'']) = Inr ?tst"
    unfolding AddLoggerInstance_tpl_def tsinks by (simp add: initial_tpl_eq)
  have reg: "dispatch 0 ?clock initial (AddLoggerInstance ''db'' (Handle 1) [''db'']) = Inr ?st"
    unfolding AddLoggerInstance_def sinks by (simp add: initial_eq)
  have lvl: "\<not> Error_level < level initial_tpl"
    by (simp add: initial_tpl_eq level_defs)
  have tsel: "selectLoggers ?tmsg [?tdefault, ?tdb] [] = [?tdefault, ?tdb]"
    by simp
  have fill: "fillValues 0 ?tmsg = Inl (Panic ''assignment to entry in nil map'')"
    by (rule fillValues_nil_map [where body = "''x''"]) (simp_all add: Sprintf_no_percent)
  have tpanic: "dispatch_tpl 0 ?clock (\<lambda>n. []) ?tst (Sink_tpl ?tmsg)
      = Inl (Panic ''assignment to entry in nil map'')"
    using fill tsel by (simp add: level_defs)
  have lv: "LogLevel_String 0 (Level ?msg) = Inr ''ERR ''"
    by (simp add: String_labels)
  have body: "Sprintf (LogLevel_String 0) (Format ?msg) (Elements ?msg) = Inr ''x''"
    by (simp add: Sprintf_no_percent)
  have subj: "printArg (LogLevel_String 0) (Subject ?msg) (CHR ''v'') = Inr ''<nil>''"
    by (simp add: printArg_def)
  have init: "log l \<noteq> None" if "l \<in> set (gologgers ?st)" "spec_matches ?msg l" for l
    using that by auto
  have thr: "level ?st \<le> Level ?msg"
    by (simp add: level_defs)
  have a: "dispatch 0 ?clock ?st (Sink ?msg) =
      Inr (?st\<lparr>written := written ?st @
             map (\<lambda>(n, l). Logger_Output (the (log l)) (?clock n)
                    (if Subject ?msg \<noteq> VNil then ''['' @ ''ERR '' @ ''] '' @ ''<nil>'' @ '', '' @ ''x''
                     else ''['' @ ''ERR '' @ ''] '' @ ''x''))
               (enumerate 0 (filter (spec_matches ?msg) (gologgers ?st)))\<rparr>)"
    by (rule dispatch_Sink_delivers [OF lv body subj _ thr]) (rule init)
  have sent: "dispatch 0 ?clock ?st (Sink ?msg)
      = Inr (?st\<lparr>written := [(Stdout, ''2024/01/01 12:00:00 [ERR ] x'' @ [newline]),
                              (Stdout, ''2024/01/01 12:00:00 [ERR ] x'' @ [newline])]\<rparr>)"
    unfolding a
    by (simp add: spec_matches_def Logger_Output_def formatHeader_def newline_def)
  have both: "initial\<lparr>gologgers := [?default, ?db],
        written := [(Stdout, ''2024/01/01 12:00:00 [ERR ] x'' @ [newline]),
                    (Stdout, ''2024/01/01 12:00:00 [ERR ] x'' @ [newline])]\<rparr>
      = ?st\<lparr>written := [(Stdout, ''2024/01/01 12:00:00 [ERR ] x'' @ [newline]),
                         (Stdout, ''2024/01/01 12:00:00 [ERR ] x'' @ [newline])]\<rparr>"
    by (simp add: initial_eq)
  show ?thesis
    unfolding tsinks sinks tst st both
    using treg reg lvl tsel tpanic sent by simp
qed

text \<open>
  C10. A message built by \<^verbatim>\<open>Log\<close> has no tags, in both files. So the sinks selected for
  it are exactly the sinks without a tag filter, and a sink with a non-empty filter is
  never among them.
\<close>

theorem Log_carries_no_tags:
  "(\<exists>msg. Log lv subject format elements = Sink msg \<and> Tags msg = [] \<and>
      selectLoggers msg ls [] = filter (\<lambda>l. tags l = []) ls \<and>
      (tags l \<noteq> [] \<longrightarrow> l \<notin> set (selectLoggers msg ls []))) \<and>
   (\<exists>tmsg. Log_tpl site lv subject format elements = Sink_tpl tmsg \<and> Tags tmsg = [] \<and>
      selectLoggers tmsg tls [] = filter (\<lambda>l. tags l = []) tls \<and>
      (tags tsink \<noteq> [] \<longrightarrow> tsink \<notin> set (selectLoggers tmsg tls [])))"
  by (simp add: Log_def Log_tpl_def Let_def selectLoggers_filter spec_matches_fun)

theorem Log_carries_no_tags_witness:
  "tags (newInstance ''db'' (Handle 1) [''db'']) \<noteq> [] \<and>
   (\<exists>msg. Log Error_level VNil ''x'' [] = Sink msg \<and> Tags msg = [] \<and>
      newInstance ''db'' (Handle 1) [''db''] \<notin>
        set (selectLoggers msg
               [newInstance ''db'' (Handle 1) [''db''], newInstance ''all'' Stdout []] [])) \<and>
   tags (newInstance_tpl ''db'' ''MESSAGE'' (Handle 1) [''db'']) \<noteq> [] \<and>
   (\<exists>tmsg. Log_tpl \<lparr>caller_file = ''main.go'', caller_line = 42, caller_fun = Some ''main.run'',
                      time_now = ''t'', since_start = ''1s''\<rparr> Error_level VNil ''x'' []
              = Sink_tpl tmsg \<and> Tags tmsg = [] \<and>
      newInstance_tpl ''db'' ''MESSAGE'' (Handle 1) [''db''] \<notin>
        set (selectLoggers tmsg
               [newInstance_tpl ''db'' ''MESSAGE'' (Handle 1) [''db''],
                newInstance_tpl ''all'' ''MESSAGE'' Stdout []] []))"
  using Log_carries_no_tags
    [of Error_level VNil "''x''" "[]"
        "[newInstance ''db'' (Handle 1) [''db''], newInstance ''all'' Stdout []]"
        "newInstance ''db'' (Handle 1) [''db'']"
        "\<lparr>caller_file = ''main.go'', caller_line = 42, caller_fun = Some ''main.run'',
          time_now = ''t'', since_start = ''1s''\<rparr>"
        "[newInstance_tpl ''db'' ''MESSAGE'' (Handle 1) [''db''],
          newInstance_tpl ''all'' ''MESSAGE'' Stdout []]"
        "newInstance_tpl ''db'' ''MESSAGE'' (Handle 1) [''db'']"]
  by (simp add: newInstance_def newInstance_tpl_def checkForRuntime_def Expand_defs
      Log_def Log_tpl_def Let_def)

section \<open>Delivery and the threshold\<close>

lemma uitoa_digit: "n < 10 \<Longrightarrow> uitoa n = [digit n]"
  by (simp add: uitoa.simps)

lemma Sprintf_failed_3: "Sprintf str ''failed %d times'' [VInt 3] = Inr ''failed 3 times''"
  by (simp add: Sprintf_def printArg_def extra_def Itoa_def uitoa_digit digit_def)



section \<open>The written line\<close>

lemma selected_init:
  assumes "\<forall>l \<in> set (selectLoggers msg ls []). P l"
  shows "l \<in> set ls \<Longrightarrow> spec_matches msg l \<Longrightarrow> P l"
  using assms by (simp add: selectLoggers_filter)

lemma Logger_Output_plain:
  "Logger_Output (log_New w [] 0) now s = (w, spec_line s)"
  by (simp add: Logger_Output_def formatHeader_def log_New_def spec_line_def)

lemma Logger_Output_std:
  "Logger_Output (log_New w p LstdFlags) now s =
     (w, p @ fst now @ '' '' @ snd now @ '' '' @ spec_line s)"
  by (simp add: Logger_Output_def formatHeader_def log_New_def spec_line_def LstdFlags_def)

lemma tpl_written_lines:
  assumes thr: "level st \<le> Level msg" and fill: "fillValues stack msg = Inr msg'"
    and init: "\<forall>l \<in> set (selectLoggers msg (gologgers st) []).
                 log l = Some (log_New (output l) [] 0)"
    and pct: "\<forall>(n, l) \<in> set (enumerate 0 (selectLoggers msg (gologgers st) [])).
                CHR ''%'' \<notin> set (expand (order n) (Format_sink l) msg')"
  shows "dispatch_tpl stack clock order st (Sink_tpl msg) =
     Inr (st\<lparr>written := written st @
            map (\<lambda>(n, l). (output l, spec_line (expand (order n) (Format_sink l) msg')))
              (enumerate 0 (selectLoggers msg (gologgers st) []))\<rparr>)"
proof -
  let ?cands = "selectLoggers msg (gologgers st) []"
  have cands: "?cands = filter (spec_matches msg) (gologgers st)"
    by (simp add: selectLoggers_filter)
  have some: "log l \<noteq> None" if "l \<in> set (gologgers st)" "spec_matches msg l" for l
    using selected_init [OF init that] by simp
  have line: "Sprintf (LogLevel_String stack) (expand (order n) (Format_sink l) msg') []
      = Inr (expand (order n) (Format_sink l) msg')"
    if "(n, l) \<in> set (enumerate 0 (filter (spec_matches msg) (gologgers st)))" for n l
    using pct that unfolding cands by (intro Sprintf_no_percent) auto
  have "map (\<lambda>(n, l). Logger_Output (the (log l)) (clock n) (expand (order n) (Format_sink l) msg'))
          (enumerate 0 ?cands)
      = map (\<lambda>(n, l). (output l, spec_line (expand (order n) (Format_sink l) msg')))
          (enumerate 0 ?cands)"
  proof (rule map_cong [OF refl])
    fix p
    assume "p \<in> set (enumerate 0 ?cands)"
    then have "snd p \<in> set ?cands"
      using enumerate_member [of "fst p" "snd p" 0 ?cands] by simp
    then have "log (snd p) = Some (log_New (output (snd p)) [] 0)"
      using init by blast
    then show "(case p of (n, l) \<Rightarrow>
          Logger_Output (the (log l)) (clock n) (expand (order n) (Format_sink l) msg'))
        = (case p of (n, l) \<Rightarrow> (output l, spec_line (expand (order n) (Format_sink l) msg')))"
      by (cases p) (simp add: Logger_Output_plain)
  qed
  then show ?thesis
    using dispatch_tpl_Sink_delivers [OF fill some line thr, where clock = clock]
    unfolding cands by simp
qed

lemma fixed_written_lines:
  assumes thr: "level st \<le> Level msg"
    and lv: "LogLevel_String stack (Level msg) = Inr lv"
    and body: "Sprintf (LogLevel_String stack) (Format msg) (Elements msg) = Inr body"
    and subj: "printArg (LogLevel_String stack) (Subject msg) (CHR ''v'') = Inr subj"
    and init: "\<forall>l \<in> set (selectLoggers msg (gologgers st) []).
                 \<exists>w p. log l = Some (log_New w p LstdFlags)"
  shows "dispatch stack clock st (Sink msg) =
     Inr (st\<lparr>written := written st @
            map (\<lambda>(n, l). (out (the (log l)),
                   lprefix (the (log l)) @ fst (clock n) @ '' '' @ snd (clock n) @ '' '' @
                   spec_line (spec_FixedLayout lv (if Subject msg = VNil then None else Some subj)
                      body)))
              (enumerate 0 (selectLoggers msg (gologgers st) []))\<rparr>)"
proof -
  let ?cands = "selectLoggers msg (gologgers st) []"
  let ?text = "spec_FixedLayout lv (if Subject msg = VNil then None else Some subj) body"
  have cands: "?cands = filter (spec_matches msg) (gologgers st)"
    by (simp add: selectLoggers_filter)
  have some: "log l \<noteq> None" if "l \<in> set (gologgers st)" "spec_matches msg l" for l
    using selected_init [OF init that] by auto
  have layout: "(if Subject msg \<noteq> VNil then ''['' @ lv @ ''] '' @ subj @ '', '' @ body
         else ''['' @ lv @ ''] '' @ body) = ?text"
    by (simp add: spec_FixedLayout_def)
  have "map (\<lambda>(n, l). Logger_Output (the (log l)) (clock n) ?text) (enumerate 0 ?cands)
      = map (\<lambda>(n, l). (out (the (log l)),
                lprefix (the (log l)) @ fst (clock n) @ '' '' @ snd (clock n) @ '' '' @
                spec_line ?text))
          (enumerate 0 ?cands)"
  proof (rule map_cong [OF refl])
    fix p
    assume "p \<in> set (enumerate 0 ?cands)"
    then have "snd p \<in> set ?cands"
      using enumerate_member [of "fst p" "snd p" 0 ?cands] by simp
    then obtain w q where "log (snd p) = Some (log_New w q LstdFlags)"
      using init by blast
    then show "(case p of (n, l) \<Rightarrow> Logger_Output (the (log l)) (clock n) ?text)
        = (case p of (n, l) \<Rightarrow> (out (the (log l)),
             lprefix (the (log l)) @ fst (clock n) @ '' '' @ snd (clock n) @ '' '' @
             spec_line ?text))"
      by (cases p) (simp add: Logger_Output_std, simp add: log_New_def)
  qed
  then show ?thesis
    using dispatch_Sink_delivers [OF lv body subj some thr, where clock = clock]
    unfolding cands layout by simp
qed

lemma initialize_tpl_logger:
  "log (initialize_tpl i) = Some (log_New (output (initialize_tpl i)) [] 0)"
  by (simp add: initialize_tpl_def)

lemma initialize_logger: "log (initialize i) = Some (log_New Stdout [] LstdFlags)"
  by (simp add: initialize_def)

text \<open>
  C4. In \<^verbatim>\<open>log.go\<close>, the text each selected sink's logger is given for a delivered message
  is \<^verbatim>\<open>[<LEVEL>] <subject>, <body>\<close> when the subject is not nil and \<^verbatim>\<open>[<LEVEL>] <body>\<close>
  when it is: \<open>lv\<close> is the label of the level, \<open>subj\<close> the subject under \<^verbatim>\<open>%v\<close> and
  \<open>body\<close> the format interpolated with the elements. The instance proved after it is the scenario of the
  specification: \<^verbatim>\<open>Log(Warning, "auth", "failed %d times", 3)\<close> gives
  \<^verbatim>\<open>[WARN] auth, failed 3 times\<close>.
\<close>

theorem fixed_layout_line:
  assumes "level st \<le> Level msg"
    and "LogLevel_String stack (Level msg) = Inr lv"
    and "Sprintf (LogLevel_String stack) (Format msg) (Elements msg) = Inr body"
    and "printArg (LogLevel_String stack) (Subject msg) (CHR ''v'') = Inr subj"
    and "\<forall>l \<in> set (selectLoggers msg (gologgers st) []). log l \<noteq> None"
  shows "dispatch stack clock st (Sink msg) =
     Inr (st\<lparr>written := written st @
            map (\<lambda>(n, l). Logger_Output (the (log l)) (clock n)
                   (spec_FixedLayout lv (if Subject msg = VNil then None else Some subj) body))
              (enumerate 0 (selectLoggers msg (gologgers st) []))\<rparr>)"
proof -
  have init: "log l \<noteq> None" if "l \<in> set (gologgers st)" "spec_matches msg l" for l
    using selected_init [OF assms(5) that] .
  have "(if Subject msg \<noteq> VNil then ''['' @ lv @ ''] '' @ subj @ '', '' @ body
         else ''['' @ lv @ ''] '' @ body)
      = spec_FixedLayout lv (if Subject msg = VNil then None else Some subj) body"
    by (simp add: spec_FixedLayout_def)
  then show ?thesis
    using dispatch_Sink_delivers [OF assms(2) assms(3) assms(4) init assms(1), where clock = clock]
    by (simp add: selectLoggers_filter)
qed

theorem fixed_layout_line_witness:
  "dispatch 0 (\<lambda>n. (''2024/01/01'', ''12:00:00'')) initial
      (Log Warning_level (VString ''auth'') ''failed %d times'' [VInt 3])
     = Inr (initial\<lparr>written :=
              [Logger_Output \<lparr>out = Stdout, lprefix = [], flag = 3\<rparr> (''2024/01/01'', ''12:00:00'')
                 ''[WARN] auth, failed 3 times'']\<rparr>) \<and>
   dispatch 0 (\<lambda>n. (''2024/01/01'', ''12:00:00'')) initial
      (Log Warning_level VNil ''failed %d times'' [VInt 3])
     = Inr (initial\<lparr>written :=
              [Logger_Output \<lparr>out = Stdout, lprefix = [], flag = 3\<rparr> (''2024/01/01'', ''12:00:00'')
                 ''[WARN] failed 3 times'']\<rparr>)"
proof -
  let ?clock = "\<lambda>n::nat. (''2024/01/01'', ''12:00:00'')"
  let ?with = "\<lparr>Level = Warning_level, Subject = VString ''auth'', Tags = [],
                 Format = ''failed %d times'', Elements = [VInt 3]\<rparr>"
  let ?without = "\<lparr>Level = Warning_level, Subject = VNil, Tags = [],
                 Format = ''failed %d times'', Elements = [VInt 3]\<rparr>"
  have thr: "level initial \<le> Level ?with" "level initial \<le> Level ?without"
    by (simp_all add: initial_eq level_defs)
  have lv: "LogLevel_String 0 (Level ?with) = Inr ''WARN''"
      "LogLevel_String 0 (Level ?without) = Inr ''WARN''"
    by (simp_all add: String_labels)
  have body: "Sprintf (LogLevel_String 0) (Format ?with) (Elements ?with) = Inr ''failed 3 times''"
      "Sprintf (LogLevel_String 0) (Format ?without) (Elements ?without) = Inr ''failed 3 times''"
    by (simp_all add: Sprintf_failed_3)
  have subj: "printArg (LogLevel_String 0) (Subject ?with) (CHR ''v'') = Inr ''auth''"
      "printArg (LogLevel_String 0) (Subject ?without) (CHR ''v'') = Inr ''<nil>''"
    by (simp_all add: printArg_def)
  have sel: "selectLoggers ?with (gologgers initial) [] = gologgers initial"
      "selectLoggers ?without (gologgers initial) [] = gologgers initial"
    by (simp_all add: initial_eq)
  have init: "\<forall>l \<in> set (selectLoggers ?with (gologgers initial) []). log l \<noteq> None"
      "\<forall>l \<in> set (selectLoggers ?without (gologgers initial) []). log l \<noteq> None"
    unfolding sel by (simp_all add: initial_eq)
  have logs: "Log Warning_level (VString ''auth'') ''failed %d times'' [VInt 3] = Sink ?with"
      "Log Warning_level VNil ''failed %d times'' [VInt 3] = Sink ?without"
    by (simp_all add: Log_def)
  have a: "dispatch 0 ?clock initial (Sink ?with) =
      Inr (initial\<lparr>written := written initial @
            map (\<lambda>(n, l). Logger_Output (the (log l)) (?clock n)
                   (spec_FixedLayout ''WARN'' (if Subject ?with = VNil then None else Some ''auth'')
                      ''failed 3 times''))
              (enumerate 0 (selectLoggers ?with (gologgers initial) []))\<rparr>)"
    by (rule fixed_layout_line [OF thr(1) lv(1) body(1) subj(1) init(1)])
  have b: "dispatch 0 ?clock initial (Sink ?without) =
      Inr (initial\<lparr>written := written initial @
            map (\<lambda>(n, l). Logger_Output (the (log l)) (?clock n)
                   (spec_FixedLayout ''WARN'' (if Subject ?without = VNil then None else Some ''<nil>'')
                      ''failed 3 times''))
              (enumerate 0 (selectLoggers ?without (gologgers initial) []))\<rparr>)"
    by (rule fixed_layout_line [OF thr(2) lv(2) body(2) subj(2) init(2)])
  show ?thesis
    unfolding logs a b sel by (simp add: initial_eq spec_FixedLayout_def)
qed

text \<open>
  C5, as stated, fails. In \<^verbatim>\<open>log.go\<close> every logger is built with \<^verbatim>\<open>log.LstdFlags\<close>, so the
  line written starts with the date and the time (and with the prefix, once one is set);
  and in both files the logger adds the newline only when the text does not end with one.
\<close>

theorem written_line_counterexample:
  "dispatch 0 (\<lambda>n. (''2024/01/01'', ''12:00:00'')) initial (Log Info_level VNil ''x'' [])
     = Inr (initial\<lparr>written := [(Stdout, ''2024/01/01 12:00:00 [INFO] x'' @ [newline])]\<rparr>) \<and>
   ''2024/01/01 12:00:00 [INFO] x'' @ [newline] \<noteq> ''[INFO] x'' @ [newline] \<and>
   dispatch_tpl 0 (\<lambda>n. (''2024/01/01'', ''12:00:00''))
       (\<lambda>n. [''LINE'', ''FUNCTION'', ''TIME'', ''DURATION'', ''MESSAGE'', ''SUBJECT'', ''LEVEL''])
       initial_tpl
       (Log_tpl \<lparr>caller_file = ''main.go'', caller_line = 42, caller_fun = Some ''main.run'',
                 time_now = ''t'', since_start = ''1s''\<rparr>
          Info_level (VString ''job'') [CHR ''d'', CHR ''o'', CHR ''n'', CHR ''e'', newline] [])
     = Inr (initial_tpl\<lparr>written := [(Stdout, ''[INFO] job, done'' @ [newline])]\<rparr>) \<and>
   ''[INFO] job, done'' @ [newline] \<noteq> (''[INFO] job, done'' @ [newline]) @ [newline]"
proof -
  let ?clock = "\<lambda>n::nat. (''2024/01/01'', ''12:00:00'')"
  let ?order = "\<lambda>n::nat. [''LINE'', ''FUNCTION'', ''TIME'', ''DURATION'', ''MESSAGE'', ''SUBJECT'', ''LEVEL'']"
  let ?vals = "[ExpandLineNumber \<mapsto> Itoa 42, ExpandFunctionName \<mapsto> ''main.run'',
                ExpandTime \<mapsto> ''t'', ExpandDuration \<mapsto> ''1s'']"
  let ?done = "[CHR ''d'', CHR ''o'', CHR ''n'', CHR ''e'', newline]"
  let ?msg = "\<lparr>Level = Info_level, Subject = VNil, Tags = [], Format = ''x'', Elements = []\<rparr>"
  let ?tmsg = "\<lparr>Level = Info_level, Subject = VString ''job'', Tags = [],
                 Format = ?done, Elements = [], values = Some ?vals\<rparr>"
  let ?filled = "\<lparr>Level = Info_level, Subject = VString ''job'', Tags = [],
                 Format = ?done, Elements = [],
                 values = Some (?vals(ExpandMessage \<mapsto> ?done,
                    ExpandSubject \<mapsto> ''job'', ExpandMessageLevel \<mapsto> ''INFO''))\<rparr>"
  have nl: "newline \<noteq> CHR ''%''"
    by (simp add: newline_def)
  have thr: "level initial \<le> Level ?msg" "level initial_tpl \<le> Level ?tmsg"
    by (simp_all add: initial_eq initial_tpl_eq)
  have lv: "LogLevel_String 0 (Level ?msg) = Inr ''INFO''"
    by (simp add: String_labels)
  have body: "Sprintf (LogLevel_String 0) (Format ?msg) (Elements ?msg) = Inr ''x''"
      "Sprintf (LogLevel_String 0) (Format ?tmsg) (Elements ?tmsg) = Inr ?done"
    using nl by (simp_all add: Sprintf_no_percent)
  have subj: "printArg (LogLevel_String 0) (Subject ?msg) (CHR ''v'') = Inr ''<nil>''"
    by (simp add: printArg_def)
  have fill: "fillValues 0 ?tmsg = Inr ?filled"
    using fillValues_Inr [of ?tmsg ?vals 0 ?done "''job''" "''INFO''"] body(2)
    by (simp add: printArg_def String_labels)
  have sel: "selectLoggers ?msg (gologgers initial) [] = gologgers initial"
      "selectLoggers ?tmsg (gologgers initial_tpl) [] = gologgers initial_tpl"
    by (simp_all add: initial_eq initial_tpl_eq)
  have init: "\<forall>l \<in> set (selectLoggers ?msg (gologgers initial) []).
        \<exists>w p. log l = Some (log_New w p LstdFlags)"
      "\<forall>l \<in> set (selectLoggers ?tmsg (gologgers initial_tpl) []).
        log l = Some (log_New (output l) [] 0)"
    unfolding sel by (simp_all add: initial_eq initial_tpl_eq log_New_def LstdFlags_def)
  have expanded: "expand (?order n) ''[LEVEL] SUBJECT, MESSAGE'' ?filled
      = ''[INFO] job, done'' @ [newline]" for n
    using nl by (simp add: expand_def Expand_defs Replace_all_def newline_def)
  have pct: "\<forall>(n, l) \<in> set (enumerate 0 (selectLoggers ?tmsg (gologgers initial_tpl) [])).
      CHR ''%'' \<notin> set (expand (?order n) (Format_sink l) ?filled)"
    unfolding sel initial_tpl_eq using nl by (simp add: expanded)
  note a = fixed_written_lines [OF thr(1) lv body(1) subj init(1), where clock = ?clock]
  note b = tpl_written_lines [OF thr(2) fill init(2) pct, where clock = ?clock]
  have logs: "Log Info_level VNil ''x'' [] = Sink ?msg"
      "Log_tpl \<lparr>caller_file = ''main.go'', caller_line = 42, caller_fun = Some ''main.run'',
                 time_now = ''t'', since_start = ''1s''\<rparr>
          Info_level (VString ''job'') ?done [] = Sink_tpl ?tmsg"
    by (simp_all add: Log_def Log_tpl_def)
  have a': "dispatch 0 ?clock initial (Sink ?msg)
      = Inr (initial\<lparr>written := [(Stdout, ''2024/01/01 12:00:00 [INFO] x'' @ [newline])]\<rparr>)"
    unfolding a sel by (simp add: initial_eq spec_line_def spec_FixedLayout_def newline_def)
  have b': "dispatch_tpl 0 ?clock ?order initial_tpl (Sink_tpl ?tmsg)
      = Inr (initial_tpl\<lparr>written := [(Stdout, ''[INFO] job, done'' @ [newline])]\<rparr>)"
    unfolding b sel by (simp add: initial_tpl_eq expanded spec_line_def)
  have ne: "''2024/01/01 12:00:00 [INFO] x'' @ [newline] \<noteq> ''[INFO] x'' @ [newline]"
      "''[INFO] job, done'' @ [newline] \<noteq> (''[INFO] job, done'' @ [newline]) @ [newline]"
    by simp_all
  show ?thesis
    unfolding logs using a' b' ne by blast
qed

text \<open>
  C5, amended. In the template variant, a selected sink whose logger is the one
  \<^verbatim>\<open>initialize\<close> builds (on the sink's own \<^verbatim>\<open>output\<close>, no prefix, no flags) and whose
  expanded template has no \<^verbatim>\<open>%\<close> gets exactly the expanded template, ended by a newline
  unless it has one, on its own output. In \<^verbatim>\<open>log.go\<close>, a selected sink gets, on the writer
  of its logger, the logger's prefix, the date, the time and then the fixed layout,
  ended in the same way. (What \<^verbatim>\<open>Printf\<close> makes of a \<^verbatim>\<open>%\<close> in an expanded template,
  and which writer the logger of \<^verbatim>\<open>log.go\<close> is built on, are left out.)
\<close>

theorem written_line_by_variant:
  "(level tst \<le> Level tmsg \<and> fillValues stack tmsg = Inr tmsg'
      \<and> (\<forall>l \<in> set (selectLoggers tmsg (gologgers tst) []).
            log l = Some (log_New (output l) [] 0))
      \<and> (\<forall>(n, l) \<in> set (enumerate 0 (selectLoggers tmsg (gologgers tst) [])).
            CHR ''%'' \<notin> set (expand (order n) (Format_sink l) tmsg'))
    \<longrightarrow> dispatch_tpl stack clock order tst (Sink_tpl tmsg) =
          Inr (tst\<lparr>written := written tst @
                 map (\<lambda>(n, l). (output l, spec_line (expand (order n) (Format_sink l) tmsg')))
                   (enumerate 0 (selectLoggers tmsg (gologgers tst) []))\<rparr>)) \<and>
   (level st \<le> Level msg \<and> LogLevel_String stack (Level msg) = Inr lv
      \<and> Sprintf (LogLevel_String stack) (Format msg) (Elements msg) = Inr body
      \<and> printArg (LogLevel_String stack) (Subject msg) (CHR ''v'') = Inr subj
      \<and> (\<forall>l \<in> set (selectLoggers msg (gologgers st) []).
            \<exists>w p. log l = Some (log_New w p LstdFlags))
    \<longrightarrow> dispatch stack clock st (Sink msg) =
          Inr (st\<lparr>written := written st @
                 map (\<lambda>(n, l). (out (the (log l)),
                        lprefix (the (log l)) @ fst (clock n) @ '' '' @ snd (clock n) @ '' '' @
                        spec_line (spec_FixedLayout lv
                           (if Subject msg = VNil then None else Some subj) body)))
                   (enumerate 0 (selectLoggers msg (gologgers st) []))\<rparr>))"
  using tpl_written_lines [of tst tmsg stack tmsg' order clock]
    fixed_written_lines [of st msg stack lv body subj clock]
  by blast

theorem written_line_by_variant_witness:
  "dispatch_tpl 0 (\<lambda>n. (''2024/01/01'', ''12:00:00''))
       (\<lambda>n. [''LINE'', ''FUNCTION'', ''TIME'', ''DURATION'', ''MESSAGE'', ''SUBJECT'', ''LEVEL''])
       (initial_tpl\<lparr>gologgers := gologgers initial_tpl @
           [initialize_tpl (newInstance_tpl ''file'' ''LEVEL: MESSAGE'' (Handle 7) [])]\<rparr>)
       (Log_tpl \<lparr>caller_file = ''main.go'', caller_line = 42, caller_fun = Some ''main.run'',
                 time_now = ''t'', since_start = ''1s''\<rparr>
          Warning_level (VString ''auth'') ''failed %d times'' [VInt 3])
     = Inr (initial_tpl\<lparr>gologgers := gologgers initial_tpl @
               [initialize_tpl (newInstance_tpl ''file'' ''LEVEL: MESSAGE'' (Handle 7) [])],
             written := [(Stdout, ''[WARN] auth, failed 3 times'' @ [newline]),
                         (Handle 7, ''WARN: failed 3 times'' @ [newline])]\<rparr>) \<and>
   dispatch 0 (\<lambda>n. (''2024/01/01'', ''12:00:00'')) initial
       (Log Warning_level (VString ''auth'') ''failed %d times'' [VInt 3])
     = Inr (initial\<lparr>written :=
               [(Stdout, ''2024/01/01 12:00:00 [WARN] auth, failed 3 times'' @ [newline])]\<rparr>)"
proof -
  let ?clock = "\<lambda>n::nat. (''2024/01/01'', ''12:00:00'')"
  let ?order = "\<lambda>n::nat. [''LINE'', ''FUNCTION'', ''TIME'', ''DURATION'', ''MESSAGE'', ''SUBJECT'', ''LEVEL'']"
  let ?vals = "[ExpandLineNumber \<mapsto> Itoa 42, ExpandFunctionName \<mapsto> ''main.run'',
                ExpandTime \<mapsto> ''t'', ExpandDuration \<mapsto> ''1s'']"
  let ?file = "\<lparr>Name = ''file'', output = Handle 7, tags = [],
                 log = Some \<lparr>out = Handle 7, lprefix = [], flag = 0\<rparr>,
                 Format_sink = ''LEVEL: MESSAGE'', needsRuntime = False\<rparr>"
  let ?tst = "initial_tpl\<lparr>gologgers := gologgers initial_tpl @ [?file]\<rparr>"
  let ?msg = "\<lparr>Level = Warning_level, Subject = VString ''auth'', Tags = [],
                 Format = ''failed %d times'', Elements = [VInt 3]\<rparr>"
  let ?tmsg = "\<lparr>Level = Warning_level, Subject = VString ''auth'', Tags = [],
                 Format = ''failed %d times'', Elements = [VInt 3], values = Some ?vals\<rparr>"
  let ?filled = "\<lparr>Level = Warning_level, Subject = VString ''auth'', Tags = [],
                 Format = ''failed %d times'', Elements = [VInt 3],
                 values = Some (?vals(ExpandMessage \<mapsto> ''failed 3 times'',
                    ExpandSubject \<mapsto> ''auth'', ExpandMessageLevel \<mapsto> ''WARN''))\<rparr>"
  have sink: "initialize_tpl (newInstance_tpl ''file'' ''LEVEL: MESSAGE'' (Handle 7) []) = ?file"
    by (simp add: initialize_tpl_def newInstance_tpl_def checkForRuntime_def log_New_def Expand_defs)
  have thr: "level initial \<le> Level ?msg" "level ?tst \<le> Level ?tmsg"
    by (simp_all add: initial_eq initial_tpl_eq level_defs)
  have lv: "LogLevel_String 0 (Level ?msg) = Inr ''WARN''"
    by (simp add: String_labels)
  have body: "Sprintf (LogLevel_String 0) (Format ?msg) (Elements ?msg) = Inr ''failed 3 times''"
    by (simp add: Sprintf_failed_3)
  have subj: "printArg (LogLevel_String 0) (Subject ?msg) (CHR ''v'') = Inr ''auth''"
    by (simp add: printArg_def)
  have fill: "fillValues 0 ?tmsg = Inr ?filled"
    using fillValues_Inr [of ?tmsg ?vals 0 "''failed 3 times''" "''auth''" "''WARN''"]
    by (simp add: Sprintf_failed_3 printArg_def String_labels)
  have sel: "selectLoggers ?msg (gologgers initial) [] = gologgers initial"
      "selectLoggers ?tmsg (gologgers ?tst) [] = gologgers ?tst"
    by (simp_all add: initial_eq initial_tpl_eq)
  have init: "\<forall>l \<in> set (selectLoggers ?msg (gologgers initial) []).
        \<exists>w p. log l = Some (log_New w p LstdFlags)"
      "\<forall>l \<in> set (selectLoggers ?tmsg (gologgers ?tst) []).
        log l = Some (log_New (output l) [] 0)"
    unfolding sel by (simp_all add: initial_eq initial_tpl_eq log_New_def LstdFlags_def)
  have expanded: "expand (?order n) ''[LEVEL] SUBJECT, MESSAGE'' ?filled
        = ''[WARN] auth, failed 3 times''"
      "expand (?order n) ''LEVEL: MESSAGE'' ?filled = ''WARN: failed 3 times''" for n
    by (simp_all add: expand_def Expand_defs Replace_all_def)
  have pct: "\<forall>(n, l) \<in> set (enumerate 0 (selectLoggers ?tmsg (gologgers ?tst) [])).
      CHR ''%'' \<notin> set (expand (?order n) (Format_sink l) ?filled)"
    unfolding sel by (simp add: initial_tpl_eq expanded)
  note both = written_line_by_variant [of ?tst ?tmsg 0 ?filled ?order ?clock initial ?msg
      "''WARN''" "''failed 3 times''" "''auth''"]
  have a: "dispatch_tpl 0 ?clock ?order ?tst (Sink_tpl ?tmsg) =
      Inr (?tst\<lparr>written := written ?tst @
             map (\<lambda>(n, l). (output l, spec_line (expand (?order n) (Format_sink l) ?filled)))
               (enumerate 0 (selectLoggers ?tmsg (gologgers ?tst) []))\<rparr>)"
    using both thr(2) fill init(2) pct by blast
  have b: "dispatch 0 ?clock initial (Sink ?msg) =
      Inr (initial\<lparr>written := written initial @
             map (\<lambda>(n, l). (out (the (log l)),
                    lprefix (the (log l)) @ fst (?clock n) @ '' '' @ snd (?clock n) @ '' '' @
                    spec_line (spec_FixedLayout ''WARN''
                       (if Subject ?msg = VNil then None else Some ''auth'') ''failed 3 times'')))
               (enumerate 0 (selectLoggers ?msg (gologgers initial) []))\<rparr>)"
    using both thr(1) lv body subj init(1) by blast
  have a': "dispatch_tpl 0 ?clock ?order ?tst (Sink_tpl ?tmsg) =
      Inr (?tst\<lparr>written := [(Stdout, ''[WARN] auth, failed 3 times'' @ [newline]),
                         (Handle 7, ''WARN: failed 3 times'' @ [newline])]\<rparr>)"
    unfolding a sel by (simp add: initial_tpl_eq expanded spec_line_def newline_def)
  have b': "dispatch 0 ?clock initial (Sink ?msg) =
      Inr (initial\<lparr>written :=
               [(Stdout, ''2024/01/01 12:00:00 [WARN] auth, failed 3 times'' @ [newline])]\<rparr>)"
    unfolding b sel by (simp add: initial_eq spec_line_def spec_FixedLayout_def newline_def)
  have logs: "Log Warning_level (VString ''auth'') ''failed %d times'' [VInt 3] = Sink ?msg"
      "Log_tpl \<lparr>caller_file = ''main.go'', caller_line = 42, caller_fun = Some ''main.run'',
                 time_now = ''t'', since_start = ''1s''\<rparr>
          Warning_level (VString ''auth'') ''failed %d times'' [VInt 3] = Sink_tpl ?tmsg"
    by (simp_all add: Log_def Log_tpl_def)
  show ?thesis
    unfolding logs sink using a' b' by simp
qed

section \<open>Rendering a template\<close>

lemma rangeOrderD:
  "rangeOrder (Some vals) order \<Longrightarrow> distinct order \<and> set order = dom vals"
  by (simp add: rangeOrder_def)

lemma Log_tpl_message:
  "Log_tpl site lv subject format elements =
     Sink_tpl \<lparr>Level = lv, Subject = subject, Tags = [], Format = format, Elements = elements,
       values = Some [ExpandLineNumber \<mapsto> Itoa (caller_line site),
                      ExpandFunctionName \<mapsto>
                        (case caller_fun site of None \<Rightarrow> caller_file site | Some f \<Rightarrow> f),
                      ExpandTime \<mapsto> time_now site,
                      ExpandDuration \<mapsto> since_start site]\<rparr>"
  by (simp add: Log_tpl_def Let_def)

lemma subject_alone:
  assumes "vals ExpandSubject = Some v"
    and "dom vals = {ExpandLineNumber, ExpandFunctionName, ExpandTime, ExpandDuration,
                     ExpandMessage, ExpandSubject, ExpandMessageLevel}"
    and "values msg = Some vals"
    and "rangeOrder (values msg) order"
    and "\<forall>k' \<in> dom vals. k' \<noteq> ExpandSubject \<longrightarrow> \<not> Contains v k'"
  shows "expand order ExpandSubject msg = v"
proof -
  have order: "distinct order" "ExpandSubject \<in> set order"
    using rangeOrderD [of vals order] assms(2,3,4) by auto
  have repl: "Replace_all ExpandSubject ExpandSubject v = v"
    by (simp add: Replace_all_def ExpandSubject_def)
  have before: "\<forall>k' \<in> dom vals. k' \<noteq> ExpandSubject \<longrightarrow> \<not> Contains ExpandSubject k'"
    unfolding assms(2) by (simp add: Expand_defs)
  have after: "\<forall>k' \<in> dom vals. k' \<noteq> ExpandSubject
      \<longrightarrow> \<not> Contains (Replace_all ExpandSubject ExpandSubject v) k'"
    unfolding repl using assms(5) .
  show ?thesis
    using expand_one_token [OF assms(3) assms(1) order before after] repl by simp
qed

text \<open>
  C8, as stated, fails. The dispatcher stores \<^verbatim>\<open>fmt.Sprintf("%v", msg.Subject)\<close> under
  \<^verbatim>\<open>SUBJECT\<close>, and \<^verbatim>\<open>%v\<close> of nil is the text \<^verbatim>\<open><nil>\<close>: with the default sink,
  \<^verbatim>\<open>Log(Info, nil, "hello")\<close> writes \<^verbatim>\<open>[INFO] <nil>, hello\<close>, not \<^verbatim>\<open>[INFO] , hello\<close>.
\<close>

theorem absent_subject_counterexample:
  "dispatch_tpl 0 (\<lambda>n. (''2024/01/01'', ''12:00:00''))
       (\<lambda>n. [''LINE'', ''FUNCTION'', ''TIME'', ''DURATION'', ''MESSAGE'', ''SUBJECT'', ''LEVEL''])
       initial_tpl
       (Log_tpl \<lparr>caller_file = ''main.go'', caller_line = 42, caller_fun = Some ''main.run'',
                 time_now = ''t'', since_start = ''1s''\<rparr> Info_level VNil ''hello'' [])
     = Inr (initial_tpl\<lparr>written := [(Stdout, ''[INFO] <nil>, hello'' @ [newline])]\<rparr>) \<and>
   ''[INFO] <nil>, hello'' @ [newline] \<noteq> ''[INFO] , hello'' @ [newline]"
proof -
  let ?clock = "\<lambda>n::nat. (''2024/01/01'', ''12:00:00'')"
  let ?order = "\<lambda>n::nat. [''LINE'', ''FUNCTION'', ''TIME'', ''DURATION'', ''MESSAGE'', ''SUBJECT'', ''LEVEL'']"
  let ?site = "\<lparr>caller_file = ''main.go'', caller_line = 42, caller_fun = Some ''main.run'',
                 time_now = ''t'', since_start = ''1s''\<rparr>"
  let ?vals = "[ExpandLineNumber \<mapsto> Itoa 42, ExpandFunctionName \<mapsto> ''main.run'',
                ExpandTime \<mapsto> ''t'', ExpandDuration \<mapsto> ''1s'']"
  let ?msg = "\<lparr>Level = Info_level, Subject = VNil, Tags = [], Format = ''hello'', Elements = [],
                values = Some ?vals\<rparr>"
  let ?filled = "\<lparr>Level = Info_level, Subject = VNil, Tags = [], Format = ''hello'',
                   Elements = [],
                   values = Some (?vals(ExpandMessage \<mapsto> ''hello'', ExpandSubject \<mapsto> ''<nil>'',
                      ExpandMessageLevel \<mapsto> ''INFO''))\<rparr>"
  have thr: "level initial_tpl \<le> Level ?msg"
    by (simp add: initial_tpl_eq)
  have fill: "fillValues 0 ?msg = Inr ?filled"
    using fillValues_Inr [of ?msg ?vals 0 "''hello''" "''<nil>''" "''INFO''"]
    by (simp add: printArg_def String_labels Sprintf_no_percent)
  have sel: "selectLoggers ?msg (gologgers initial_tpl) [] = gologgers initial_tpl"
    by (simp add: initial_tpl_eq)
  have init: "\<forall>l \<in> set (selectLoggers ?msg (gologgers initial_tpl) []).
        log l = Some (log_New (output l) [] 0)"
    unfolding sel by (simp add: initial_tpl_eq log_New_def)
  have expanded: "expand (?order n) ''[LEVEL] SUBJECT, MESSAGE'' ?filled
      = ''[INFO] <nil>, hello''" for n
    by (simp add: expand_def Expand_defs Replace_all_def)
  have pct: "\<forall>(n, l) \<in> set (enumerate 0 (selectLoggers ?msg (gologgers initial_tpl) [])).
      CHR ''%'' \<notin> set (expand (?order n) (Format_sink l) ?filled)"
    unfolding sel initial_tpl_eq by (simp add: expanded)
  note a = tpl_written_lines [OF thr fill init pct, where clock = ?clock]
  have a': "dispatch_tpl 0 ?clock ?order initial_tpl (Sink_tpl ?msg)
      = Inr (initial_tpl\<lparr>written := [(Stdout, ''[INFO] <nil>, hello'' @ [newline])]\<rparr>)"
    unfolding a sel by (simp add: initial_tpl_eq expanded spec_line_def newline_def)
  have built: "Log_tpl ?site Info_level VNil ''hello'' [] = Sink_tpl ?msg"
    by (simp add: Log_tpl_message)
  show ?thesis
    unfolding built using a' by simp
qed

text \<open>
  C8, amended. For every message that \<^verbatim>\<open>Log\<close> builds without a subject (with a level among
  the seven and a body that can be formatted), filling the context does not fail and
  stores the text \<^verbatim>\<open><nil>\<close> under \<^verbatim>\<open>SUBJECT\<close>; and the template \<^verbatim>\<open>SUBJECT\<close> expands to
  \<^verbatim>\<open><nil>\<close>, in whatever order the keys are met.
\<close>

theorem absent_subject_renders_nil:
  assumes "lv \<le> None_level"
    and "Sprintf (LogLevel_String stack) format elements = Inr body"
    and "Log_tpl site lv VNil format elements = Sink_tpl msg"
  shows "\<exists>msg' vals. fillValues stack msg = Inr msg' \<and> values msg' = Some vals
           \<and> vals ExpandSubject = Some ''<nil>''
           \<and> (\<forall>order. rangeOrder (values msg') order
                 \<longrightarrow> expand order ExpandSubject msg' = ''<nil>'')"
proof -
  let ?vals = "[ExpandLineNumber \<mapsto> Itoa (caller_line site),
                ExpandFunctionName \<mapsto>
                  (case caller_fun site of None \<Rightarrow> caller_file site | Some f \<Rightarrow> f),
                ExpandTime \<mapsto> time_now site,
                ExpandDuration \<mapsto> since_start site]"
  obtain label where label: "LogLevel_String stack lv = Inr label"
    using String_inside [OF assms(1)] by blast
  let ?vals' = "?vals(ExpandMessage \<mapsto> body, ExpandSubject \<mapsto> ''<nil>'',
                      ExpandMessageLevel \<mapsto> label)"
  have msg: "msg = \<lparr>Level = lv, Subject = VNil, Tags = [], Format = format,
      Elements = elements, values = Some ?vals\<rparr>"
    using assms(3) by (simp add: Log_tpl_message)
  have fill: "fillValues stack msg = Inr (msg\<lparr>values := Some ?vals'\<rparr>)"
    by (rule fillValues_Inr) (simp_all add: msg assms(2) label printArg_def)
  have dom: "dom ?vals' = {ExpandLineNumber, ExpandFunctionName, ExpandTime, ExpandDuration,
                     ExpandMessage, ExpandSubject, ExpandMessageLevel}"
    by auto
  have sub: "?vals' ExpandSubject = Some ''<nil>''"
    by (simp add: Expand_defs)
  have free: "\<forall>k' \<in> dom ?vals'. k' \<noteq> ExpandSubject \<longrightarrow> \<not> Contains ''<nil>'' k'"
    unfolding dom by (simp add: Expand_defs)
  have "expand order ExpandSubject (msg\<lparr>values := Some ?vals'\<rparr>) = ''<nil>''"
    if "rangeOrder (values (msg\<lparr>values := Some ?vals'\<rparr>)) order" for order
    using subject_alone [OF sub dom _ that free] by simp
  then show ?thesis
    using fill sub by (intro exI [of _ "msg\<lparr>values := Some ?vals'\<rparr>"] exI [of _ ?vals']) simp
qed

theorem absent_subject_renders_nil_witness:
  "Info_level \<le> None_level \<and>
   Sprintf (LogLevel_String 0) ''hello'' [] = Inr ''hello'' \<and>
   fillValues 0
     \<lparr>Level = Info_level, Subject = VNil, Tags = [], Format = ''hello'', Elements = [],
      values = Some [ExpandLineNumber \<mapsto> Itoa 42, ExpandFunctionName \<mapsto> ''main.run'',
                     ExpandTime \<mapsto> ''t'', ExpandDuration \<mapsto> ''1s'']\<rparr>
     = Inr \<lparr>Level = Info_level, Subject = VNil, Tags = [], Format = ''hello'', Elements = [],
            values = Some [ExpandLineNumber \<mapsto> Itoa 42, ExpandFunctionName \<mapsto> ''main.run'',
                           ExpandTime \<mapsto> ''t'', ExpandDuration \<mapsto> ''1s'',
                           ExpandMessage \<mapsto> ''hello'', ExpandSubject \<mapsto> ''<nil>'',
                           ExpandMessageLevel \<mapsto> ''INFO'']\<rparr> \<and>
   expand [''LEVEL'', ''SUBJECT'', ''MESSAGE'', ''DURATION'', ''TIME'', ''FUNCTION'', ''LINE'']
     ExpandSubject
     \<lparr>Level = Info_level, Subject = VNil, Tags = [], Format = ''hello'', Elements = [],
      values = Some [ExpandLineNumber \<mapsto> Itoa 42, ExpandFunctionName \<mapsto> ''main.run'',
                     ExpandTime \<mapsto> ''t'', ExpandDuration \<mapsto> ''1s'',
                     ExpandMessage \<mapsto> ''hello'', ExpandSubject \<mapsto> ''<nil>'',
                     ExpandMessageLevel \<mapsto> ''INFO'']\<rparr>
     = ''<nil>''"
proof -
  let ?site = "\<lparr>caller_file = ''main.go'', caller_line = 42, caller_fun = Some ''main.run'',
                 time_now = ''t'', since_start = ''1s''\<rparr>"
  let ?vals = "[ExpandLineNumber \<mapsto> Itoa 42, ExpandFunctionName \<mapsto> ''main.run'',
                ExpandTime \<mapsto> ''t'', ExpandDuration \<mapsto> ''1s'']"
  let ?vals' = "?vals(ExpandMessage \<mapsto> ''hello'', ExpandSubject \<mapsto> ''<nil>'',
                      ExpandMessageLevel \<mapsto> ''INFO'')"
  let ?msg = "\<lparr>Level = Info_level, Subject = VNil, Tags = [], Format = ''hello'', Elements = [],
                values = Some ?vals\<rparr>"
  let ?filled = "\<lparr>Level = Info_level, Subject = VNil, Tags = [], Format = ''hello'',
                   Elements = [], values = Some ?vals'\<rparr>"
  let ?order = "[''LEVEL'', ''SUBJECT'', ''MESSAGE'', ''DURATION'', ''TIME'', ''FUNCTION'', ''LINE'']"
  have lv: "Info_level \<le> None_level"
    by (simp add: level_defs)
  have body: "Sprintf (LogLevel_String 0) ''hello'' [] = Inr ''hello''"
    by (simp add: Sprintf_no_percent)
  have built: "Log_tpl ?site Info_level VNil ''hello'' [] = Sink_tpl ?msg"
    by (simp add: Log_tpl_message)
  have fill: "fillValues 0 ?msg = Inr ?filled"
    using fillValues_Inr [of ?msg ?vals 0 "''hello''" "''<nil>''" "''INFO''"] body
    by (simp add: printArg_def String_labels)
  have range: "rangeOrder (values ?filled) ?order"
    by (auto simp: rangeOrder_def Expand_defs)
  obtain msg' where "fillValues 0 ?msg = Inr msg'"
      and all: "\<forall>order. rangeOrder (values msg') order \<longrightarrow> expand order ExpandSubject msg' = ''<nil>''"
    using absent_subject_renders_nil [OF lv body built] by blast
  then have "msg' = ?filled"
    using fill by simp
  then have "expand ?order ExpandSubject ?filled = ''<nil>''"
    using all range by blast
  then show ?thesis
    using lv body fill by blast
qed




text \<open>
  C9 does not hold of the code. \<^verbatim>\<open>expand\<close> ranges over a Go map, whose iteration order is
  not fixed, and the outcome of replacing one key after the other depends on it as soon
  as a value holds a token. With the default sink and \<^verbatim>\<open>Log(Info, nil, "LEVEL")\<close>, on the
  same state and the same message, the line is \<^verbatim>\<open>[INFO] <nil>, INFO\<close> when \<^verbatim>\<open>MESSAGE\<close> is
  met before \<^verbatim>\<open>LEVEL\<close> and \<^verbatim>\<open>[INFO] <nil>, LEVEL\<close> when \<^verbatim>\<open>LEVEL\<close> is met first. Both
  orders list each key of the map once; they are two starting points in the same cycle.
\<close>

theorem render_depends_on_range_order:
  "rangeOrder
     (Some [ExpandLineNumber \<mapsto> Itoa 42, ExpandFunctionName \<mapsto> ''main.run'',
            ExpandTime \<mapsto> ''t'', ExpandDuration \<mapsto> ''1s'',
            ExpandMessage \<mapsto> ''LEVEL'', ExpandSubject \<mapsto> ''<nil>'',
            ExpandMessageLevel \<mapsto> ''INFO''])
     [''LINE'', ''FUNCTION'', ''TIME'', ''DURATION'', ''MESSAGE'', ''SUBJECT'', ''LEVEL''] \<and>
   rangeOrder
     (Some [ExpandLineNumber \<mapsto> Itoa 42, ExpandFunctionName \<mapsto> ''main.run'',
            ExpandTime \<mapsto> ''t'', ExpandDuration \<mapsto> ''1s'',
            ExpandMessage \<mapsto> ''LEVEL'', ExpandSubject \<mapsto> ''<nil>'',
            ExpandMessageLevel \<mapsto> ''INFO''])
     [''LEVEL'', ''LINE'', ''FUNCTION'', ''TIME'', ''DURATION'', ''MESSAGE'', ''SUBJECT''] \<and>
   dispatch_tpl 0 (\<lambda>n. (''2024/01/01'', ''12:00:00''))
       (\<lambda>n. [''LINE'', ''FUNCTION'', ''TIME'', ''DURATION'', ''MESSAGE'', ''SUBJECT'', ''LEVEL''])
       initial_tpl
       (Log_tpl \<lparr>caller_file = ''main.go'', caller_line = 42, caller_fun = Some ''main.run'',
                 time_now = ''t'', since_start = ''1s''\<rparr> Info_level VNil ''LEVEL'' [])
     = Inr (initial_tpl\<lparr>written := [(Stdout, ''[INFO] <nil>, INFO'' @ [newline])]\<rparr>) \<and>
   dispatch_tpl 0 (\<lambda>n. (''2024/01/01'', ''12:00:00''))
       (\<lambda>n. [''LEVEL'', ''LINE'', ''FUNCTION'', ''TIME'', ''DURATION'', ''MESSAGE'', ''SUBJECT''])
       initial_tpl
       (Log_tpl \<lparr>caller_file = ''main.go'', caller_line = 42, caller_fun = Some ''main.run'',
                 time_now = ''t'', since_start = ''1s''\<rparr> Info_level VNil ''LEVEL'' [])
     = Inr (initial_tpl\<lparr>written := [(Stdout, ''[INFO] <nil>, LEVEL'' @ [newline])]\<rparr>)"
proof -
  let ?clock = "\<lambda>n::nat. (''2024/01/01'', ''12:00:00'')"
  let ?first = "[''LINE'', ''FUNCTION'', ''TIME'', ''DURATION'', ''MESSAGE'', ''SUBJECT'', ''LEVEL'']"
  let ?second = "[''LEVEL'', ''LINE'', ''FUNCTION'', ''TIME'', ''DURATION'', ''MESSAGE'', ''SUBJECT'']"
  let ?site = "\<lparr>caller_file = ''main.go'', caller_line = 42, caller_fun = Some ''main.run'',
                 time_now = ''t'', since_start = ''1s''\<rparr>"
  let ?vals = "[ExpandLineNumber \<mapsto> Itoa 42, ExpandFunctionName \<mapsto> ''main.run'',
                ExpandTime \<mapsto> ''t'', ExpandDuration \<mapsto> ''1s'']"
  let ?msg = "\<lparr>Level = Info_level, Subject = VNil, Tags = [], Format = ''LEVEL'', Elements = [],
                values = Some ?vals\<rparr>"
  let ?filled = "\<lparr>Level = Info_level, Subject = VNil, Tags = [], Format = ''LEVEL'',
                   Elements = [],
                   values = Some (?vals(ExpandMessage \<mapsto> ''LEVEL'', ExpandSubject \<mapsto> ''<nil>'',
                      ExpandMessageLevel \<mapsto> ''INFO''))\<rparr>"
  have range: "rangeOrder (values ?filled) ?first" "rangeOrder (values ?filled) ?second"
    by (auto simp: rangeOrder_def Expand_defs)
  have thr: "level initial_tpl \<le> Level ?msg"
    by (simp add: initial_tpl_eq)
  have fill: "fillValues 0 ?msg = Inr ?filled"
    using fillValues_Inr [of ?msg ?vals 0 "''LEVEL''" "''<nil>''" "''INFO''"]
    by (simp add: printArg_def String_labels Sprintf_no_percent)
  have sel: "selectLoggers ?msg (gologgers initial_tpl) [] = gologgers initial_tpl"
    by (simp add: initial_tpl_eq)
  have init: "\<forall>l \<in> set (selectLoggers ?msg (gologgers initial_tpl) []).
        log l = Some (log_New (output l) [] 0)"
    unfolding sel by (simp add: initial_tpl_eq log_New_def)
  have expanded: "expand ?first ''[LEVEL] SUBJECT, MESSAGE'' ?filled = ''[INFO] <nil>, INFO''"
      "expand ?second ''[LEVEL] SUBJECT, MESSAGE'' ?filled = ''[INFO] <nil>, LEVEL''"
    by (simp_all add: expand_def Expand_defs Replace_all_def)
  have pct: "\<forall>(n, l) \<in> set (enumerate 0 (selectLoggers ?msg (gologgers initial_tpl) [])).
        CHR ''%'' \<notin> set (expand ((\<lambda>n. ?first) n) (Format_sink l) ?filled)"
      "\<forall>(n, l) \<in> set (enumerate 0 (selectLoggers ?msg (gologgers initial_tpl) [])).
        CHR ''%'' \<notin> set (expand ((\<lambda>n. ?second) n) (Format_sink l) ?filled)"
    unfolding sel initial_tpl_eq by (simp_all add: expanded)
  note a = tpl_written_lines [OF thr fill init pct(1), where clock = ?clock]
  note b = tpl_written_lines [OF thr fill init pct(2), where clock = ?clock]
  have a': "dispatch_tpl 0 ?clock (\<lambda>n. ?first) initial_tpl (Sink_tpl ?msg)
      = Inr (initial_tpl\<lparr>written := [(Stdout, ''[INFO] <nil>, INFO'' @ [newline])]\<rparr>)"
    unfolding a sel by (simp add: initial_tpl_eq expanded spec_line_def newline_def)
  have b': "dispatch_tpl 0 ?clock (\<lambda>n. ?second) initial_tpl (Sink_tpl ?msg)
      = Inr (initial_tpl\<lparr>written := [(Stdout, ''[INFO] <nil>, LEVEL'' @ [newline])]\<rparr>)"
    unfolding b sel by (simp add: initial_tpl_eq expanded spec_line_def newline_def)
  have built: "Log_tpl ?site Info_level VNil ''LEVEL'' [] = Sink_tpl ?msg"
    by (simp add: Log_tpl_message)
  show ?thesis
    unfolding built using a' b' range by simp
qed

end
